theory Spec2Isabelle
  imports Complex_Main
begin

section \<open>stock\_tracker.py: holdings store and portfolio valuation\<close>

text \<open>
  A shallow embedding of \<^verbatim>\<open>stock_tracker.py\<close>. Conventions:
  \<^item> Python floats are taken as real numbers: arithmetic is exact, there is no NaN,
    no infinity and no rounding. Each stated formula is the expression the code evaluates.
  \<^item> Strings are lists of 8-bit characters; \<^verbatim>\<open>str.upper\<close> and \<^verbatim>\<open>str.strip\<close>
    are modelled on ASCII text.
  \<^item> A holding is the dictionary with the keys \<^verbatim>\<open>symbol\<close>, \<^verbatim>\<open>shares\<close>,
    \<^verbatim>\<open>price\<close> that \<^verbatim>\<open>load_portfolio\<close> produces; further keys of a stored
    entry are never read by the program and are left out.
  \<^item> The data file is the result of \<^verbatim>\<open>os.path.exists\<close>, \<^verbatim>\<open>open\<close> and
    \<^verbatim>\<open>json.load\<close>: missing, rejected with \<^verbatim>\<open>JSONDecodeError\<close>, failing with
    another exception, or a JSON value. JSON integers and JSON floats are kept apart, as
    \<^verbatim>\<open>json.load\<close> does.
  \<^item> Python's built-in conversions \<^verbatim>\<open>float(str)\<close> and \<^verbatim>\<open>str(object)\<close> and the
    quote source behind \<^verbatim>\<open>get_live_price\<close> are parameters.
  \<^item> Exceptions are values: a function that can raise returns \<open>py_error + 'a\<close>.
\<close>

subsection \<open>Strings\<close>

definition is_space :: "char \<Rightarrow> bool" where
  \<comment> \<open>\<^verbatim>\<open>str.isspace\<close> on ASCII: tab, LF, VT, FF, CR, FS, GS, RS, US, space\<close>
  "is_space c = ((of_char c :: nat) \<in> {9, 10, 11, 12, 13, 28, 29, 30, 31, 32})"

definition strip :: "string \<Rightarrow> string" where
  "strip s = rev (dropWhile is_space (rev (dropWhile is_space s)))"

definition upper_char :: "char \<Rightarrow> char" where
  "upper_char c =
     (let n = (of_char c :: nat) in if 97 \<le> n \<and> n \<le> 122 then char_of (n - 32) else c)"

definition upper :: "string \<Rightarrow> string" where
  "upper s = map upper_char s"

subsection \<open>Exceptions, JSON values and the data file\<close>

datatype py_error =
    ValueError
  | TypeError
  | AttributeError
  | OverflowError
  | ZeroDivisionError
  | ReadError string   \<comment> \<open>an exception of \<^verbatim>\<open>open\<close> or \<^verbatim>\<open>json.load\<close> that is not
                           \<^verbatim>\<open>JSONDecodeError\<close>, by the name of its class\<close>

datatype json =
    JNull
  | JBool bool
  | JInt int         \<comment> \<open>a Python \<^verbatim>\<open>int\<close>, of any size\<close>
  | JNum real        \<comment> \<open>a Python \<^verbatim>\<open>float\<close>\<close>
  | JStr string
  | JArr "json list"
  | JObj "(string \<times> json) list"   \<comment> \<open>the items of a \<^verbatim>\<open>dict\<close>, each key once\<close>

datatype storage =
    NoFile           \<comment> \<open>\<^verbatim>\<open>os.path.exists(DATA_FILE)\<close> is false\<close>
  | BadJson          \<comment> \<open>\<^verbatim>\<open>json.load\<close> raises \<^verbatim>\<open>JSONDecodeError\<close>\<close>
  | Unreadable string
      \<comment> \<open>\<^verbatim>\<open>open\<close> or \<^verbatim>\<open>json.load\<close> raises another exception, of the named class:
          \<^verbatim>\<open>UnicodeDecodeError\<close> for bytes that are not text, \<^verbatim>\<open>RecursionError\<close> for
          deep nesting, \<^verbatim>\<open>ValueError\<close> for an integer of too many digits,
          \<^verbatim>\<open>PermissionError\<close>\<close>
  | Parsed json      \<comment> \<open>\<^verbatim>\<open>json.load\<close> returns this value\<close>

record builtins =
  float_of_str :: "string \<Rightarrow> real option"   \<comment> \<open>\<^verbatim>\<open>float(s)\<close> for a string; None is \<^verbatim>\<open>ValueError\<close>\<close>
  str_of :: "json \<Rightarrow> string"                 \<comment> \<open>\<^verbatim>\<open>str(v)\<close> for a value that is not a string\<close>

record row =
  symbol :: string
  shares :: real
  price :: real      \<comment> \<open>cost basis per share\<close>

definition py_div :: "real \<Rightarrow> real \<Rightarrow> py_error + real" where
  "py_div a b = (if b = 0 then Inl ZeroDivisionError else Inr (a / b))"

definition dict_get :: "(string \<times> json) list \<Rightarrow> string \<Rightarrow> json \<Rightarrow> json" where
  \<comment> \<open>\<^verbatim>\<open>d.get(key, default)\<close>\<close>
  "dict_get d k dflt = (case map_of d k of None \<Rightarrow> dflt | Some v \<Rightarrow> v)"

fun truthy :: "json \<Rightarrow> bool" where
  "truthy JNull = False"
| "truthy (JBool b) = b"
| "truthy (JInt n) = (n \<noteq> 0)"
| "truthy (JNum x) = (x \<noteq> 0)"
| "truthy (JStr s) = (s \<noteq> [])"
| "truthy (JArr xs) = (xs \<noteq> [])"
| "truthy (JObj kvs) = (kvs \<noteq> [])"

definition float_overflow :: "int \<Rightarrow> bool" where
  \<comment> \<open>the integers that round to a value beyond the largest double,
      \<open>2 ^ 1024 - 2 ^ 971\<close>: \<^verbatim>\<open>float\<close> raises \<^verbatim>\<open>OverflowError\<close> on them\<close>
  "float_overflow n = (2 ^ 1024 - 2 ^ 970 \<le> \<bar>n\<bar>)"

fun py_float :: "builtins \<Rightarrow> json \<Rightarrow> py_error + real" where
  \<comment> \<open>\<^verbatim>\<open>float(v)\<close>\<close>
  "py_float B JNull = Inl TypeError"
| "py_float B (JBool b) = Inr (if b then 1 else 0)"
| "py_float B (JInt n) = (if float_overflow n then Inl OverflowError else Inr (of_int n))"
| "py_float B (JNum x) = Inr x"
| "py_float B (JStr s) = (case float_of_str B s of None \<Rightarrow> Inl ValueError | Some x \<Rightarrow> Inr x)"
| "py_float B (JArr xs) = Inl TypeError"
| "py_float B (JObj kvs) = Inl TypeError"

definition float_or_0 :: "builtins \<Rightarrow> json \<Rightarrow> py_error + real" where
  \<comment> \<open>\<^verbatim>\<open>float(v or 0)\<close>\<close>
  "float_or_0 B v = py_float B (if truthy v then v else JNum 0)"

definition py_str :: "builtins \<Rightarrow> json \<Rightarrow> string" where
  \<comment> \<open>\<^verbatim>\<open>str(v)\<close>\<close>
  "py_str B v = (case v of JStr s \<Rightarrow> s | _ \<Rightarrow> str_of B v)"

subsection \<open>Utilities\<close>

definition normalize_row :: "builtins \<Rightarrow> json \<Rightarrow> py_error + row" where
  \<comment> \<open>the body of the loop in \<^verbatim>\<open>load_portfolio\<close>\<close>
  "normalize_row B entry =
     (case entry of
        JObj d \<Rightarrow>
          (let sym = upper (py_str B (dict_get d ''symbol'' (JStr ''''))) in
           case float_or_0 B (dict_get d ''shares'' (JNum 0)) of
             Inl e \<Rightarrow> Inl e
           | Inr sh \<Rightarrow>
               (case float_or_0 B (dict_get d ''price'' (JNum 0)) of
                  Inl e \<Rightarrow> Inl e
                | Inr p \<Rightarrow> Inr \<lparr>symbol = sym, shares = sh, price = p\<rparr>))
      | _ \<Rightarrow> Inl AttributeError)"

fun normalize_rows :: "builtins \<Rightarrow> json list \<Rightarrow> py_error + row list" where
  "normalize_rows B [] = Inr []"
| "normalize_rows B (entry # rest) =
     (case normalize_row B entry of
        Inl e \<Rightarrow> Inl e
      | Inr r \<Rightarrow> (case normalize_rows B rest of Inl e \<Rightarrow> Inl e | Inr rs \<Rightarrow> Inr (r # rs)))"

definition load_portfolio :: "builtins \<Rightarrow> storage \<Rightarrow> py_error + row list" where
  "load_portfolio B st =
     (case st of
        NoFile \<Rightarrow> Inr []
      | BadJson \<Rightarrow> Inr []
      | Unreadable name \<Rightarrow> Inl (ReadError name)
      | Parsed data \<Rightarrow> (case data of JArr entries \<Rightarrow> normalize_rows B entries | _ \<Rightarrow> Inr []))"

definition row_json :: "row \<Rightarrow> json" where
  "row_json r =
     JObj [(''symbol'', JStr (symbol r)), (''shares'', JNum (shares r)), (''price'', JNum (price r))]"

definition save_portfolio :: "row list \<Rightarrow> storage" where
  \<comment> \<open>the file after \<^verbatim>\<open>json.dump(rows, f)\<close>\<close>
  "save_portfolio rows = Parsed (JArr (map row_json rows))"

definition matches :: "string \<Rightarrow> row \<Rightarrow> bool" where
  \<comment> \<open>the test \<^verbatim>\<open>r.get("symbol", "").upper() == symbol\<close> of \<^verbatim>\<open>find_row\<close>\<close>
  "matches s r = (upper (symbol r) = s)"

definition find_row :: "row list \<Rightarrow> string \<Rightarrow> row option" where
  "find_row rows smb = (let s = strip (upper smb) in find (matches s) rows)"

fun replace_first :: "(row \<Rightarrow> bool) \<Rightarrow> row \<Rightarrow> row list \<Rightarrow> row list" where
  \<comment> \<open>\<^verbatim>\<open>find_row\<close> returns a reference into the list: assigning to its keys changes
      the first matching element in place\<close>
  "replace_first P r' [] = []"
| "replace_first P r' (r # rs) = (if P r then r' # rs else r # replace_first P r' rs)"

subsection \<open>Menu action: add a stock\<close>

datatype message =
    NoSymbolEntered
  | SharesMustBePositive
  | InvalidShares
  | CostCannotBeNegative
  | InvalidCost
  | Updated string real real
  | Added string real real

record add_result =
  printed :: message
  saved :: "row list option"   \<comment> \<open>the argument of \<^verbatim>\<open>save_portfolio\<close>; None when it is not called\<close>

definition upsert :: "row list \<Rightarrow> string \<Rightarrow> real \<Rightarrow> real \<Rightarrow> py_error + add_result" where
  \<comment> \<open>lines 114 to 129 of \<^verbatim>\<open>add_stock\<close>; a found row has three keys, so
      \<^verbatim>\<open>if existing\<close> is true exactly when a row was found\<close>
  "upsert rows sy sh cost =
     (case find_row rows sy of
        Some existing \<Rightarrow>
          (let old_shares = shares existing;
               old_cost = price existing;
               new_total_shares = old_shares + sh
           in case (if new_total_shares > 0
                    then py_div (old_shares * old_cost + sh * cost) new_total_shares
                    else Inr (price existing)) of
                Inl e \<Rightarrow> Inl e
              | Inr p \<Rightarrow>
                  (let existing' = existing\<lparr>price := p, shares := new_total_shares\<rparr>
                   in Inr \<lparr>printed = Updated sy (shares existing') (price existing'),
                           saved = Some (replace_first (matches (strip (upper sy))) existing' rows)\<rparr>))
      | None \<Rightarrow>
          Inr \<lparr>printed = Added sy sh cost,
               saved = Some (rows @ [\<lparr>symbol = sy, shares = sh, price = cost\<rparr>])\<rparr>)"

definition add_stock ::
  "builtins \<Rightarrow> storage \<Rightarrow> string \<Rightarrow> string \<Rightarrow> string \<Rightarrow> py_error + add_result" where
  \<comment> \<open>the three strings are what \<^verbatim>\<open>input\<close> returns at the three prompts; a prompt
      that is not reached does not read its string\<close>
  "add_stock B st symbol_in shares_in cost_in =
     (case load_portfolio B st of
        Inl e \<Rightarrow> Inl e
      | Inr rows \<Rightarrow>
          (let sy = upper (strip symbol_in) in
           if sy = [] then Inr \<lparr>printed = NoSymbolEntered, saved = None\<rparr>
           else case float_of_str B (strip shares_in) of
             None \<Rightarrow> Inr \<lparr>printed = InvalidShares, saved = None\<rparr>
           | Some sh \<Rightarrow>
               if sh \<le> 0 then Inr \<lparr>printed = SharesMustBePositive, saved = None\<rparr>
               else case float_of_str B (strip cost_in) of
                 None \<Rightarrow> Inr \<lparr>printed = InvalidCost, saved = None\<rparr>
               | Some cost \<Rightarrow>
                   if cost < 0 then Inr \<lparr>printed = CostCannotBeNegative, saved = None\<rparr>
                   else upsert rows sy sh cost))"

definition storage_after :: "storage \<Rightarrow> add_result \<Rightarrow> storage" where
  \<comment> \<open>the data file once \<^verbatim>\<open>add_stock\<close> has returned\<close>
  "storage_after st res = (case saved res of None \<Rightarrow> st | Some rows \<Rightarrow> save_portfolio rows)"

subsection \<open>Menu action: view the portfolio\<close>

datatype display = Dollars real | NA   \<comment> \<open>the column \<^verbatim>\<open>live_display\<close>: a price or "n/a"\<close>

record line =
  l_sym :: string
  l_sh :: real
  l_cost :: real
  l_live :: display
  l_value :: real
  l_pl :: real

record 'w vstate =
  price_cache :: "string \<rightharpoonup> real option"
  world :: 'w                    \<comment> \<open>the state of the quote source\<close>
  grand_value :: real
  grand_cost :: real
  out :: "line list"             \<comment> \<open>the table rows printed so far\<close>

definition or_0 :: "real option \<Rightarrow> real" where
  \<comment> \<open>\<^verbatim>\<open>(live or 0)\<close>: None and 0.0 are false\<close>
  "or_0 live = (case live of None \<Rightarrow> 0 | Some p \<Rightarrow> if p = 0 then 0 else p)"

definition live_display :: "real option \<Rightarrow> display" where
  "live_display live = (case live of Some p \<Rightarrow> Dollars p | None \<Rightarrow> NA)"

definition view_row ::
  "(string \<Rightarrow> 'w \<Rightarrow> real option \<times> 'w) \<Rightarrow> row \<Rightarrow> 'w vstate \<Rightarrow> 'w vstate" where
  \<comment> \<open>the body of the loop of \<^verbatim>\<open>view_portfolio\<close>\<close>
  "view_row get_live_price r s =
     (let sy = upper (symbol r);
          sh = shares r;
          cost = price r;
          (live, pc, w) =
            (case price_cache s sy of
               None \<Rightarrow> (let (p, w') = get_live_price sy (world s)
                         in (p, (price_cache s)(sy \<mapsto> p), w'))
             | Some p \<Rightarrow> (p, price_cache s, world s));
          value = or_0 live * sh;
          pl = value - cost * sh
      in \<lparr>price_cache = pc, world = w,
          grand_value = grand_value s + value,
          grand_cost = grand_cost s + cost * sh,
          out = out s @ [\<lparr>l_sym = sy, l_sh = sh, l_cost = cost, l_live = live_display live,
                           l_value = value, l_pl = pl\<rparr>]\<rparr>)"

fun view_rows ::
  "(string \<Rightarrow> 'w \<Rightarrow> real option \<times> 'w) \<Rightarrow> row list \<Rightarrow> 'w vstate \<Rightarrow> 'w vstate" where
  "view_rows get_live_price [] s = s"
| "view_rows get_live_price (r # rs) s = view_rows get_live_price rs (view_row get_live_price r s)"

record report =
  table :: "line list"
  total_value :: real              \<comment> \<open>\<^verbatim>\<open>grand_value\<close>\<close>
  total_cost :: real               \<comment> \<open>\<^verbatim>\<open>grand_cost\<close>\<close>
  total_pl :: real                 \<comment> \<open>\<^verbatim>\<open>grand_value - grand_cost\<close>, printed on the totals line\<close>
  change_pct :: "real option"      \<comment> \<open>None when the percentage line is not printed\<close>

definition valuate ::
  "(string \<Rightarrow> 'w \<Rightarrow> real option \<times> 'w) \<Rightarrow> row list \<Rightarrow> 'w \<Rightarrow> py_error + report \<times> 'w" where
  \<comment> \<open>lines 138 to 171 of \<^verbatim>\<open>view_portfolio\<close>: the pass over the loaded rows\<close>
  "valuate get_live_price rows w =
     (let s = view_rows get_live_price rows
                \<lparr>price_cache = Map.empty, world = w, grand_value = 0, grand_cost = 0, out = []\<rparr>
      in case (if grand_value s \<noteq> 0 \<and> grand_cost s \<noteq> 0
               then (case py_div (grand_value s - grand_cost s) (grand_cost s) of
                       Inl e \<Rightarrow> Inl e
                     | Inr q \<Rightarrow> Inr (Some (q * 100)))
               else Inr None) of
           Inl e \<Rightarrow> Inl e
         | Inr pct \<Rightarrow>
             Inr (\<lparr>table = out s, total_value = grand_value s, total_cost = grand_cost s,
                   total_pl = grand_value s - grand_cost s, change_pct = pct\<rparr>, world s))"

datatype view_output = PortfolioEmpty | Portfolio report

definition view_portfolio ::
  "builtins \<Rightarrow> (string \<Rightarrow> 'w \<Rightarrow> real option \<times> 'w) \<Rightarrow> storage \<Rightarrow> 'w \<Rightarrow> py_error + view_output \<times> 'w" where
  "view_portfolio B get_live_price st w =
     (case load_portfolio B st of
        Inl e \<Rightarrow> Inl e
      | Inr rows \<Rightarrow>
          if rows = [] then Inr (PortfolioEmpty, w)
          else (case valuate get_live_price rows w of
                  Inl e \<Rightarrow> Inl e
                | Inr (rep, w') \<Rightarrow> Inr (Portfolio rep, w')))"

definition logged ::
  "(string \<Rightarrow> 'w \<Rightarrow> real option \<times> 'w) \<Rightarrow> string \<Rightarrow> 'w \<times> string list \<Rightarrow> real option \<times> 'w \<times> string list" where
  \<comment> \<open>a quote source that also records the symbol of every call made to it\<close>
  "logged get_live_price sy = (\<lambda>(w, calls).
     (let (p, w') = get_live_price sy w in (p, (w', calls @ [sy]))))"

definition get_live_price ::
  "(string \<Rightarrow> 'w \<Rightarrow> real option \<times> 'w) \<Rightarrow> string \<Rightarrow> 'w \<Rightarrow> real option \<times> 'w" where
  \<comment> \<open>lines 54 to 81: the symbol is uppercased and trimmed (line 64) and the quote service
      is asked for that ticker; every failure of the service is the answer None\<close>
  "get_live_price service smb w = service (strip (upper smb)) w"

subsection \<open>Sequences of additions\<close>

fun add_stocks :: "builtins \<Rightarrow> storage \<Rightarrow> (string \<times> string \<times> string) list \<Rightarrow> py_error + storage" where
  \<comment> \<open>menu entry 1 of \<^verbatim>\<open>main\<close> chosen once for each triple of answers; an exception
      ends the program\<close>
  "add_stocks B st [] = Inr st"
| "add_stocks B st ((symbol_in, shares_in, cost_in) # rest) =
     (case add_stock B st symbol_in shares_in cost_in of
        Inl e \<Rightarrow> Inl e
      | Inr res \<Rightarrow> add_stocks B (storage_after st res) rest)"

definition holdings_after ::
  "builtins \<Rightarrow> storage \<Rightarrow> (string \<times> string \<times> string) list \<Rightarrow> py_error + row list" where
  \<comment> \<open>what \<^verbatim>\<open>load_portfolio\<close> returns after the additions\<close>
  "holdings_after B st inputs =
     (case add_stocks B st inputs of Inl e \<Rightarrow> Inl e | Inr st' \<Rightarrow> load_portfolio B st')"

subsection \<open>Notions used in the statements\<close>

definition valid_input :: "builtins \<Rightarrow> string \<Rightarrow> string \<Rightarrow> string \<Rightarrow> bool" where
  \<comment> \<open>symbol non-empty, shares a number above 0, cost a number not below 0\<close>
  "valid_input B symbol_in shares_in cost_in =
     (upper (strip symbol_in) \<noteq> [] \<and>
      (case float_of_str B (strip shares_in) of None \<Rightarrow> False | Some sh \<Rightarrow> 0 < sh) \<and>
      (case float_of_str B (strip cost_in) of None \<Rightarrow> False | Some c \<Rightarrow> 0 \<le> c))"

fun is_validation_error :: "message \<Rightarrow> bool" where
  "is_validation_error NoSymbolEntered = True"
| "is_validation_error SharesMustBePositive = True"
| "is_validation_error InvalidShares = True"
| "is_validation_error CostCannotBeNegative = True"
| "is_validation_error InvalidCost = True"
| "is_validation_error (Updated sy sh p) = False"
| "is_validation_error (Added sy sh p) = False"

definition trimmed :: "string \<Rightarrow> bool" where
  \<comment> \<open>no whitespace at either end\<close>
  "trimmed x = (x = [] \<or> (\<not> is_space (hd x) \<and> \<not> is_space (last x)))"

definition merged :: "row \<Rightarrow> real \<Rightarrow> real \<Rightarrow> row" where
  \<comment> \<open>the found holding after the weighted-average update\<close>
  "merged h sh cost =
     h\<lparr>price := (if 0 < shares h + sh then (shares h * price h + sh * cost) / (shares h + sh) else price h),
       shares := shares h + sh\<rparr>"

definition upserted :: "row list \<Rightarrow> string \<Rightarrow> real \<Rightarrow> real \<Rightarrow> row list" where
  \<comment> \<open>the list that a valid addition saves\<close>
  "upserted rows sy sh cost =
     (case find (matches sy) rows of
        None \<Rightarrow> rows @ [\<lparr>symbol = sy, shares = sh, price = cost\<rparr>]
      | Some h \<Rightarrow> replace_first (matches sy) (merged h sh cost) rows)"

definition normalized :: "string \<Rightarrow> bool" where
  \<comment> \<open>a symbol that is already uppercased and trimmed\<close>
  "normalized s = (upper (strip s) = s)"

definition one_per_symbol :: "row list \<Rightarrow> bool" where
  \<comment> \<open>at most one holding for each uppercased, trimmed symbol\<close>
  "one_per_symbol rows = distinct (map (\<lambda>r. upper (strip (symbol r))) rows)"

definition store_inv :: "row list \<Rightarrow> bool" where
  "store_inv rows = (list_all (\<lambda>r. normalized (symbol r)) rows \<and> one_per_symbol rows)"

definition pure_lookup :: "(string \<Rightarrow> real option) \<Rightarrow> string \<Rightarrow> 'w \<Rightarrow> real option \<times> 'w" where
  \<comment> \<open>a quote source whose answer depends on the symbol only\<close>
  "pure_lookup f sy w = (f sy, w)"

definition line_of :: "row \<Rightarrow> real option \<Rightarrow> line" where
  \<comment> \<open>the table row printed for a holding whose live price is \<open>live\<close>\<close>
  "line_of r live =
     \<lparr>l_sym = upper (symbol r), l_sh = shares r, l_cost = price r,
      l_live = live_display live,
      l_value = or_0 live * shares r,
      l_pl = or_0 live * shares r - price r * shares r\<rparr>"

definition start :: "'w \<Rightarrow> 'w vstate" where
  \<comment> \<open>the local variables of \<^verbatim>\<open>view_portfolio\<close> before its loop\<close>
  "start w = \<lparr>price_cache = Map.empty, world = w, grand_value = 0, grand_cost = 0, out = []\<rparr>"

definition cached :: "'w vstate \<Rightarrow> row \<Rightarrow> real option" where
  \<comment> \<open>the cache's entry for the symbol of a row (unavailable when there is none)\<close>
  "cached s r = (case price_cache s (upper (symbol r)) of Some p \<Rightarrow> p | None \<Rightarrow> None)"

definition row_line :: "(string \<Rightarrow> real option) \<Rightarrow> row \<Rightarrow> line" where
  \<comment> \<open>the table row of the specification: value = (price or 0) * shares,
      costTotal = costBasis * shares, profitLoss = value - costTotal\<close>
  "row_line f r =
     \<lparr>l_sym = upper (symbol r), l_sh = shares r, l_cost = price r,
      l_live = live_display (f (upper (symbol r))),
      l_value = or_0 (f (upper (symbol r))) * shares r,
      l_pl = or_0 (f (upper (symbol r))) * shares r - price r * shares r\<rparr>"






definition demo_prices :: "string \<Rightarrow> real option" where
  \<comment> \<open>quotes for the examples below: MSFT at 60, AAPL at 200, anything else unavailable\<close>
  "demo_prices = map_of [(''MSFT'', 60), (''AAPL'', 200)]"

definition demo_builtins :: builtins where
  \<comment> \<open>Python's \<^verbatim>\<open>float\<close> on the strings of the examples below (any other string of the
      examples is not a number); \<^verbatim>\<open>str\<close> is applied to strings only there\<close>
  "demo_builtins =
     \<lparr>float_of_str = map_of [(''1'', 1), (''2'', 2), (''5'', 5), (''7'', 7), (''10'', 10),
                              (''100'', 100), (''150'', 150), (''0'', 0), (''-1'', -1)],
      str_of = (\<lambda>v. [])\<rparr>"

section \<open>Properties\<close>

subsection \<open>Uppercasing and trimming\<close>


lemma of_char_upper_char:
  "(of_char (upper_char c) :: nat) = (if 97 \<le> (of_char c :: nat) \<and> (of_char c :: nat) \<le> 122 then of_char c - 32 else of_char c)"
  by (auto simp: upper_char_def Let_def)
lemma is_space_upper_char: "is_space (upper_char c) = is_space c"
  unfolding is_space_def of_char_upper_char by auto
lemma upper_char_idem: "upper_char (upper_char c) = upper_char c"
proof -
  have "\<not> (97 \<le> (of_char (upper_char c) :: nat) \<and> (of_char (upper_char c) :: nat) \<le> 122)"
    unfolding of_char_upper_char by auto
  then show ?thesis by (subst upper_char_def) (auto simp: Let_def)
qed
lemma upper_idem: "upper (upper s) = upper s"
  by (simp add: upper_def upper_char_idem)
lemma dropWhile_space_upper: "dropWhile is_space (upper s) = upper (dropWhile is_space s)"
  by (induction s) (simp_all add: upper_def is_space_upper_char)
lemma rev_upper: "rev (upper s) = upper (rev s)"
  by (simp add: upper_def rev_map)
lemma strip_upper: "strip (upper s) = upper (strip s)"
  by (simp add: strip_def dropWhile_space_upper rev_upper)

lemma strip_trimmed: "trimmed x \<Longrightarrow> strip x = x"
proof -
  assume tr: "trimmed x"
  have a: "dropWhile is_space x = x"
    using tr by (auto simp: trimmed_def dropWhile_eq_self_iff)
  have b: "dropWhile is_space (rev x) = rev x"
    using tr by (auto simp: trimmed_def dropWhile_eq_self_iff hd_rev)
  show ?thesis by (simp add: strip_def a b)
qed

lemma trimmed_strip: "trimmed (strip s)"
proof (cases "strip s = []")
  case True
  then show ?thesis by (simp add: trimmed_def)
next
  case False
  define t where "t = dropWhile is_space s"
  define u where "u = dropWhile is_space (rev t)"
  have su: "strip s = rev u" by (simp add: strip_def t_def u_def)
  from False su have une: "u \<noteq> []" by simp
  then have tne: "t \<noteq> []" by (auto simp: u_def)
  have hd_u: "\<not> is_space (hd u)"
    using une unfolding u_def by (rule hd_dropWhile)
  have hd_t: "\<not> is_space (hd t)"
    using tne unfolding t_def by (rule hd_dropWhile)
  from une obtain x where x: "x \<in> set (rev t)" "\<not> is_space x"
    unfolding u_def by (auto simp: dropWhile_eq_Nil_conv)
  have "last u = last (rev t)"
    unfolding u_def using x by (rule dropWhile_last)
  also have "\<dots> = hd t" using tne by (simp add: last_rev)
  finally have last_u: "\<not> is_space (last u)" using hd_t by simp
  show ?thesis
    unfolding su trimmed_def using une hd_u last_u by (simp add: hd_rev last_rev)
qed

lemma strip_idem: "strip (strip s) = strip s"
  by (rule strip_trimmed[OF trimmed_strip])

lemma normalized_input: "normalized (upper (strip a))"
  by (simp add: normalized_def strip_upper strip_idem upper_idem)

lemma strip_upper_input: "strip (upper (upper (strip a))) = upper (strip a)"
  by (simp add: strip_upper strip_idem upper_idem)

lemma normalized_upper: "normalized s \<Longrightarrow> upper s = s"
  by (metis normalized_def upper_idem)

lemma normalized_strip: "normalized s \<Longrightarrow> strip s = s"
  by (metis normalized_def strip_upper strip_idem)

subsection \<open>Loading what was saved\<close>

lemma float_or_0_num: "float_or_0 B (JNum x) = Inr x"
  by (simp add: float_or_0_def)

lemma normalize_row_json:
  "normalize_row B (row_json r) = Inr (r\<lparr>symbol := upper (symbol r)\<rparr>)"
  by (simp add: normalize_row_def row_json_def dict_get_def py_str_def float_or_0_num)

lemma normalize_rows_json:
  "normalize_rows B (map row_json rows) = Inr (map (\<lambda>r. r\<lparr>symbol := upper (symbol r)\<rparr>) rows)"
  by (induction rows) (simp_all add: normalize_row_json)

lemma load_save:
  "load_portfolio B (save_portfolio rows) = Inr (map (\<lambda>r. r\<lparr>symbol := upper (symbol r)\<rparr>) rows)"
  by (simp add: load_portfolio_def save_portfolio_def normalize_rows_json)

lemma load_save_same:
  assumes "list_all (\<lambda>r. upper (symbol r) = symbol r) rows"
  shows "load_portfolio B (save_portfolio rows) = Inr rows"
proof -
  have "map (\<lambda>r. r\<lparr>symbol := upper (symbol r)\<rparr>) rows = rows"
    using assms by (induction rows) simp_all
  then show ?thesis by (simp add: load_save)
qed

lemma normalize_row_upper:
  "normalize_row B e = Inr r \<Longrightarrow> upper (symbol r) = symbol r"
  by (auto simp: normalize_row_def upper_idem Let_def split: json.splits sum.splits)

lemma normalize_rows_upper:
  "normalize_rows B es = Inr rows \<Longrightarrow> list_all (\<lambda>r. upper (symbol r) = symbol r) rows"
proof (induction es arbitrary: rows)
  case Nil
  then show ?case by simp
next
  case (Cons e es)
  then show ?case
    by (auto split: sum.splits dest: normalize_row_upper)
qed

lemma load_upper:
  "load_portfolio B st = Inr rows \<Longrightarrow> list_all (\<lambda>r. upper (symbol r) = symbol r) rows"
  by (auto simp: load_portfolio_def split: storage.splits json.splits dest: normalize_rows_upper)


subsection \<open>Finding and replacing the first match\<close>

lemma find_row_input: "find_row rows (upper (strip a)) = find (matches (upper (strip a))) rows"
  by (simp add: find_row_def strip_upper_input)

lemma replace_first_none: "find P rows = None \<Longrightarrow> replace_first P r' rows = rows"
  by (induction rows) (auto split: if_splits)

lemma replace_first_some:
  "find P rows = Some h \<Longrightarrow>
   \<exists>i<length rows. rows ! i = h \<and> P h \<and> (\<forall>j<i. \<not> P (rows ! j)) \<and> replace_first P r' rows = rows[i := r']"
proof (induction rows)
  case Nil
  then show ?case by simp
next
  case (Cons r rows)
  show ?case
  proof (cases "P r")
    case True
    with Cons.prems have "r = h" by simp
    with True have "(r # rows) ! 0 = h \<and> P h \<and> (\<forall>j<0. \<not> P ((r # rows) ! j)) \<and>
      replace_first P r' (r # rows) = (r # rows)[0 := r']" by simp
    then show ?thesis by blast
  next
    case False
    with Cons.prems have "find P rows = Some h" by simp
    from Cons.IH[OF this] obtain i where i: "i < length rows" "rows ! i = h" "P h"
      "\<forall>j<i. \<not> P (rows ! j)" "replace_first P r' rows = rows[i := r']" by blast
    have "\<forall>j<Suc i. \<not> P ((r # rows) ! j)"
      using False i(4) by (auto simp: less_Suc_eq_0_disj)
    with i False have "Suc i < length (r # rows) \<and> (r # rows) ! Suc i = h \<and> P h \<and>
      (\<forall>j<Suc i. \<not> P ((r # rows) ! j)) \<and> replace_first P r' (r # rows) = (r # rows)[Suc i := r']"
      by simp
    then show ?thesis by blast
  qed
qed

subsection \<open>One addition\<close>

lemma upsert_new:
  "find_row rows sy = None \<Longrightarrow>
   upsert rows sy sh cost =
     Inr \<lparr>printed = Added sy sh cost, saved = Some (rows @ [\<lparr>symbol = sy, shares = sh, price = cost\<rparr>])\<rparr>"
  by (simp add: upsert_def)

lemma upsert_existing:
  "find_row rows sy = Some h \<Longrightarrow>
   upsert rows sy sh cost =
     Inr \<lparr>printed = Updated sy (shares (merged h sh cost)) (price (merged h sh cost)),
          saved = Some (replace_first (matches (strip (upper sy))) (merged h sh cost) rows)\<rparr>"
  by (simp add: upsert_def merged_def py_div_def Let_def)

lemma add_stock_valid:
  assumes "load_portfolio B st = Inr rows"
    and "upper (strip symbol_in) \<noteq> []"
    and "float_of_str B (strip shares_in) = Some sh" and "0 < sh"
    and "float_of_str B (strip cost_in) = Some cost" and "0 \<le> cost"
  shows "add_stock B st symbol_in shares_in cost_in = upsert rows (upper (strip symbol_in)) sh cost"
  using assms by (simp add: add_stock_def Let_def)

lemma add_stock_invalid:
  assumes "load_portfolio B st = Inr rows"
    and "\<not> valid_input B symbol_in shares_in cost_in"
  shows "\<exists>m. is_validation_error m \<and>
     add_stock B st symbol_in shares_in cost_in = Inr \<lparr>printed = m, saved = None\<rparr>"
  using assms
  by (auto simp: add_stock_def valid_input_def Let_def split: option.splits)


lemma symbol_merged: "symbol (merged h sh cost) = symbol h"
  by (simp add: merged_def)

lemma replace_first_upper:
  "list_all (\<lambda>r. upper (symbol r) = symbol r) rows \<Longrightarrow> upper (symbol r') = symbol r' \<Longrightarrow>
   list_all (\<lambda>r. upper (symbol r) = symbol r) (replace_first P r' rows)"
  by (induction rows) auto

lemma find_upper:
  "list_all Q rows \<Longrightarrow> find P rows = Some h \<Longrightarrow> Q h"
  by (induction rows) (auto split: if_splits)

lemma upserted_upper:
  assumes "list_all (\<lambda>r. upper (symbol r) = symbol r) rows" and "upper sy = sy"
  shows "list_all (\<lambda>r. upper (symbol r) = symbol r) (upserted rows sy sh cost)"
proof (cases "find (matches sy) rows")
  case None
  with assms show ?thesis by (simp add: upserted_def)
next
  case (Some h)
  with assms have "upper (symbol h) = symbol h" by (blast dest: find_upper)
  with assms Some show ?thesis
    by (simp add: upserted_def replace_first_upper symbol_merged)
qed

lemma upsert_saved:
  "\<exists>m. upsert rows (upper (strip a)) sh cost =
     Inr \<lparr>printed = m, saved = Some (upserted rows (upper (strip a)) sh cost)\<rparr> \<and>
     \<not> is_validation_error m"
proof (cases "find_row rows (upper (strip a))")
  case None
  then show ?thesis
    by (simp add: upsert_new upserted_def find_row_input[symmetric])
next
  case (Some h)
  then show ?thesis
    by (simp add: upsert_existing upserted_def find_row_input[symmetric] strip_upper_input)
qed

lemma add_stock_valid_step:
  assumes "load_portfolio B st = Inr rows"
    and "upper (strip symbol_in) \<noteq> []"
    and "float_of_str B (strip shares_in) = Some sh" and "0 < sh"
    and "float_of_str B (strip cost_in) = Some cost" and "0 \<le> cost"
  shows "\<exists>m. add_stock B st symbol_in shares_in cost_in =
           Inr \<lparr>printed = m, saved = Some (upserted rows (upper (strip symbol_in)) sh cost)\<rparr> \<and>
         \<not> is_validation_error m"
  using upsert_saved[of rows symbol_in sh cost] add_stock_valid[OF assms] by simp

lemma load_upserted:
  assumes "load_portfolio B st = Inr rows"
  shows "load_portfolio B (save_portfolio (upserted rows (upper (strip a)) sh cost)) =
         Inr (upserted rows (upper (strip a)) sh cost)"
proof -
  have "upper (upper (strip a)) = upper (strip a)" by (rule upper_idem)
  with load_upper[OF assms] show ?thesis
    by (intro load_save_same upserted_upper)
qed

lemma holdings_after_Nil: "holdings_after B st [] = load_portfolio B st"
  by (simp add: holdings_after_def)

lemma holdings_after_valid:
  assumes "load_portfolio B st = Inr rows"
    and "upper (strip symbol_in) \<noteq> []"
    and "float_of_str B (strip shares_in) = Some sh" and "0 < sh"
    and "float_of_str B (strip cost_in) = Some cost" and "0 \<le> cost"
  shows "holdings_after B st ((symbol_in, shares_in, cost_in) # rest) =
         holdings_after B (save_portfolio (upserted rows (upper (strip symbol_in)) sh cost)) rest"
proof -
  from add_stock_valid_step[OF assms] obtain m where
    "add_stock B st symbol_in shares_in cost_in =
       Inr \<lparr>printed = m, saved = Some (upserted rows (upper (strip symbol_in)) sh cost)\<rparr>"
    by blast
  then show ?thesis by (simp add: holdings_after_def storage_after_def)
qed

lemma holdings_after_invalid:
  assumes "load_portfolio B st = Inr rows"
    and "\<not> valid_input B symbol_in shares_in cost_in"
  shows "holdings_after B st ((symbol_in, shares_in, cost_in) # rest) = holdings_after B st rest"
proof -
  from add_stock_invalid[OF assms] obtain m where
    "add_stock B st symbol_in shares_in cost_in = Inr \<lparr>printed = m, saved = None\<rparr>"
    by blast
  then show ?thesis by (simp add: holdings_after_def storage_after_def)
qed

lemma find_append_none:
  "find P xs = None \<Longrightarrow> find P (xs @ ys) = find P ys"
  by (induction xs) (auto split: if_splits)

lemma replace_first_append_none:
  "find P xs = None \<Longrightarrow> replace_first P r' (xs @ ys) = xs @ replace_first P r' ys"
  by (induction xs) (auto split: if_splits)

lemma upserted_twice_new:
  assumes "find (matches sy) rows = None" and "upper sy = sy" and "0 < s1 + s2"
  shows "upserted (upserted rows sy s1 c1) sy s2 c2 =
         rows @ [\<lparr>symbol = sy, shares = s1 + s2, price = (s1 * c1 + s2 * c2) / (s1 + s2)\<rparr>]"
  using assms
  by (simp add: upserted_def find_append_none replace_first_append_none matches_def merged_def)



subsection \<open>The examples' inputs\<close>

lemma demo_float:
  "float_of_str demo_builtins (strip ''2'') = Some 2"
  "float_of_str demo_builtins (strip ''100'') = Some 100"
  "float_of_str demo_builtins (strip ''150'') = Some 150"
  "float_of_str demo_builtins (strip '' 2 '') = Some 2"
  by (simp_all add: demo_builtins_def strip_def is_space_def)

lemma demo_symbol_lower: "upper (strip ''aapl'') = ''AAPL''" by code_simp
lemma demo_symbol_spaced: "upper (strip '' AAPL '') = ''AAPL''" by code_simp

lemma demo_invalid:
  "\<not> valid_input demo_builtins ''AAPL'' ''0'' ''10''"
  "\<not> valid_input demo_builtins ''  '' ''1'' ''10''"
  "\<not> valid_input demo_builtins ''AAPL'' ''1'' ''-1''"
  by (simp_all add: valid_input_def demo_builtins_def strip_def is_space_def upper_def)

lemma demo_float_more:
  "float_of_str demo_builtins (strip ''1'') = Some 1"
  "float_of_str demo_builtins (strip ''5'') = Some 5"
  "float_of_str demo_builtins (strip ''7'') = Some 7"
  "float_of_str demo_builtins (strip ''10'') = Some 10"
  by (simp_all add: demo_builtins_def strip_def is_space_def)

lemma demo_load_one:
  "load_portfolio demo_builtins
     (Parsed (JArr [JObj [(''symbol'', JStr ''AAPL''), (''shares'', JNum 2), (''price'', JNum 100)]])) =
   Inr [\<lparr>symbol = ''AAPL'', shares = 2, price = 100\<rparr>]"
  by code_simp

lemma demo_load_two:
  "load_portfolio demo_builtins
     (Parsed (JArr [JObj [(''symbol'', JStr ''MSFT''), (''shares'', JNum 10), (''price'', JNum 5)],
                    JObj [(''symbol'', JStr ''AAPL''), (''shares'', JNum 2), (''price'', JNum 100)]])) =
   Inr [\<lparr>symbol = ''MSFT'', shares = 10, price = 5\<rparr>, \<lparr>symbol = ''AAPL'', shares = 2, price = 100\<rparr>]"
  by code_simp

subsection \<open>Two additions of one symbol\<close>

lemma holdings_after_two_valid:
  assumes "load_portfolio B st = Inr rows"
    and "upper (strip symbol1) \<noteq> []"
    and "upper (strip symbol2) = upper (strip symbol1)"
    and "float_of_str B (strip shares1_in) = Some shares1" and "0 < shares1"
    and "float_of_str B (strip cost1_in) = Some cost1" and "0 \<le> cost1"
    and "float_of_str B (strip shares2_in) = Some shares2" and "0 < shares2"
    and "float_of_str B (strip cost2_in) = Some cost2" and "0 \<le> cost2"
  shows "holdings_after B st [(symbol1, shares1_in, cost1_in), (symbol2, shares2_in, cost2_in)] =
         Inr (upserted (upserted rows (upper (strip symbol1)) shares1 cost1)
                (upper (strip symbol1)) shares2 cost2)"
proof -
  let ?sy = "upper (strip symbol1)"
  let ?rows1 = "upserted rows ?sy shares1 cost1"
  have l1: "load_portfolio B (save_portfolio ?rows1) = Inr ?rows1"
    by (rule load_upserted[OF assms(1)])
  have l2: "load_portfolio B (save_portfolio (upserted ?rows1 ?sy shares2 cost2)) =
            Inr (upserted ?rows1 ?sy shares2 cost2)"
    by (rule load_upserted[OF l1])
  have "holdings_after B st [(symbol1, shares1_in, cost1_in), (symbol2, shares2_in, cost2_in)] =
        holdings_after B (save_portfolio ?rows1) [(symbol2, shares2_in, cost2_in)]"
    by (rule holdings_after_valid[OF assms(1,2,4,5,6,7)])
  also have "\<dots> = holdings_after B (save_portfolio (upserted ?rows1 (upper (strip symbol2)) shares2 cost2)) []"
    using assms(2,3) by (intro holdings_after_valid[OF l1 _ assms(8,9,10,11)]) simp
  also have "\<dots> = Inr (upserted ?rows1 ?sy shares2 cost2)"
    by (simp add: holdings_after_Nil assms(3) l2)
  finally show ?thesis .
qed

subsection \<open>Two additions of a new symbol\<close>

text \<open>
  C1. Let the data file load to \<open>rows\<close>, with no holding for the symbol. Two additions
  of that symbol (the two entered spellings may differ in case and surrounding blanks), with
  shares above 0 and costs not below 0, leave the loaded rows followed by one holding for the
  uppercased, trimmed symbol, whose shares are \<open>shares1 + shares2\<close> and whose cost basis is
  \<open>(shares1 * cost1 + shares2 * cost2) / (shares1 + shares2)\<close>. Numbers are reals here.
\<close>

theorem weighted_average_two_adds:
  assumes "load_portfolio B st = Inr rows"
    and "find_row rows symbol1 = None"
    and "upper (strip symbol1) \<noteq> []"
    and "upper (strip symbol2) = upper (strip symbol1)"
    and "float_of_str B (strip shares1_in) = Some shares1" and "0 < shares1"
    and "float_of_str B (strip cost1_in) = Some cost1" and "0 \<le> cost1"
    and "float_of_str B (strip shares2_in) = Some shares2" and "0 < shares2"
    and "float_of_str B (strip cost2_in) = Some cost2" and "0 \<le> cost2"
  shows "holdings_after B st [(symbol1, shares1_in, cost1_in), (symbol2, shares2_in, cost2_in)] =
         Inr (rows @ [\<lparr>symbol = upper (strip symbol1), shares = shares1 + shares2,
                        price = (shares1 * cost1 + shares2 * cost2) / (shares1 + shares2)\<rparr>])"
proof -
  let ?sy = "upper (strip symbol1)"
  let ?rows1 = "upserted rows ?sy shares1 cost1"
  have none: "find (matches ?sy) rows = None"
    using assms(2) by (simp add: find_row_def strip_upper)
  have up: "upper ?sy = ?sy" by (rule upper_idem)
  have l1: "load_portfolio B (save_portfolio ?rows1) = Inr ?rows1"
    by (rule load_upserted[OF assms(1)])
  have l2: "load_portfolio B (save_portfolio (upserted ?rows1 ?sy shares2 cost2)) =
            Inr (upserted ?rows1 ?sy shares2 cost2)"
    by (rule load_upserted[OF l1])
  have "holdings_after B st [(symbol1, shares1_in, cost1_in), (symbol2, shares2_in, cost2_in)] =
        holdings_after B (save_portfolio ?rows1) [(symbol2, shares2_in, cost2_in)]"
    by (rule holdings_after_valid[OF assms(1,3,5,6,7,8)])
  also have "\<dots> = holdings_after B (save_portfolio (upserted ?rows1 (upper (strip symbol2)) shares2 cost2)) []"
    using assms(3,4) by (intro holdings_after_valid[OF l1 _ assms(9,10,11,12)]) simp
  also have "\<dots> = Inr (upserted ?rows1 ?sy shares2 cost2)"
    by (simp add: holdings_after_Nil assms(4) l2)
  also have "upserted ?rows1 ?sy shares2 cost2 =
      rows @ [\<lparr>symbol = ?sy, shares = shares1 + shares2,
               price = (shares1 * cost1 + shares2 * cost2) / (shares1 + shares2)\<rparr>]"
    using assms(6,10) by (intro upserted_twice_new[OF none up]) simp
  finally show ?thesis .
qed

text \<open>The example of the specification: AAPL 2 at 100, then AAPL 2 at 150, gives AAPL 4 at 125.\<close>

theorem weighted_average_two_adds_witness:
  "holdings_after demo_builtins NoFile [(''aapl'', ''2'', ''100''), ('' AAPL '', ''2'', ''150'')] =
     Inr [\<lparr>symbol = ''AAPL'', shares = 4, price = 125\<rparr>]"
proof -
  have h1: "load_portfolio demo_builtins NoFile = Inr []" by (simp add: load_portfolio_def)
  have h2: "find_row [] ''aapl'' = None" by (simp add: find_row_def)
  have h3: "upper (strip ''aapl'') \<noteq> []" by (simp add: demo_symbol_lower)
  have h4: "upper (strip '' AAPL '') = upper (strip ''aapl'')" by (simp add: demo_symbol_lower demo_symbol_spaced)
  show ?thesis
    using weighted_average_two_adds[OF h1 h2 h3 h4 demo_float(1) _ demo_float(2) _ demo_float(1) _ demo_float(3)]
    by (simp add: demo_symbol_lower)
qed


subsection \<open>Rejected input\<close>

text \<open>
  C3. Let the data file load to \<open>rows\<close>. When the entered symbol is empty after trimming,
  or the shares are not a number above 0, or the cost is not a number that is at least 0,
  \<^verbatim>\<open>add_stock\<close> prints one of its validation messages and returns without calling
  \<^verbatim>\<open>save_portfolio\<close>: the data file is the one from before the call and loads to the
  same rows.
\<close>

theorem invalid_add_leaves_store:
  assumes "load_portfolio B st = Inr rows"
    and "\<not> valid_input B symbol_in shares_in cost_in"
  shows "\<exists>res. add_stock B st symbol_in shares_in cost_in = Inr res \<and>
           is_validation_error (printed res) \<and> saved res = None \<and>
           storage_after st res = st \<and> load_portfolio B (storage_after st res) = Inr rows"
proof -
  from add_stock_invalid[OF assms] obtain m where m: "is_validation_error m"
    "add_stock B st symbol_in shares_in cost_in = Inr \<lparr>printed = m, saved = None\<rparr>"
    by blast
  then show ?thesis using assms(1) by (simp add: storage_after_def)
qed

theorem invalid_add_leaves_store_witness:
  "\<exists>res. add_stock demo_builtins NoFile ''AAPL'' ''0'' ''10'' = Inr res \<and>
           is_validation_error (printed res) \<and> saved res = None \<and>
           storage_after NoFile res = NoFile \<and>
           load_portfolio demo_builtins (storage_after NoFile res) = Inr []"
proof -
  have h1: "load_portfolio demo_builtins NoFile = Inr []" by (simp add: load_portfolio_def)
  show ?thesis by (rule invalid_add_leaves_store[OF h1 demo_invalid(1)])
qed

subsection \<open>What an addition leaves alone\<close>

text \<open>
  C10. Let the data file load to \<open>rows\<close> and the input be valid. Then \<^verbatim>\<open>add_stock\<close>
  saves a list that loads back unchanged, and that list is either \<open>rows\<close> with one new
  holding appended at the end (no holding matched the symbol), or \<open>rows\<close> with the single
  element at the position of the first matching holding replaced by its merged value: same
  length, same symbol at that position, every other position equal to what it was, and so
  every holding of another symbol unchanged and in its place.
\<close>

theorem add_frame:
  assumes "load_portfolio B st = Inr rows"
    and "upper (strip symbol_in) \<noteq> []"
    and "float_of_str B (strip shares_in) = Some sh" and "0 < sh"
    and "float_of_str B (strip cost_in) = Some cost" and "0 \<le> cost"
  shows "\<exists>res rows'. add_stock B st symbol_in shares_in cost_in = Inr res \<and>
           saved res = Some rows' \<and>
           load_portfolio B (storage_after st res) = Inr rows' \<and>
           (case find_row rows symbol_in of
              None \<Rightarrow> rows' = rows @ [\<lparr>symbol = upper (strip symbol_in), shares = sh, price = cost\<rparr>]
            | Some h \<Rightarrow>
                (\<exists>i<length rows. rows ! i = h \<and> upper (symbol h) = upper (strip symbol_in) \<and>
                   length rows' = length rows \<and> rows' ! i = merged h sh cost \<and>
                   symbol (rows' ! i) = symbol h \<and>
                   (\<forall>j<length rows. j \<noteq> i \<longrightarrow> rows' ! j = rows ! j) \<and>
                   (\<forall>j<length rows. upper (symbol (rows ! j)) \<noteq> upper (strip symbol_in) \<longrightarrow>
                      rows' ! j = rows ! j)))"
proof -
  let ?sy = "upper (strip symbol_in)"
  let ?rows' = "upserted rows ?sy sh cost"
  from add_stock_valid_step[OF assms] obtain m where
    res: "add_stock B st symbol_in shares_in cost_in = Inr \<lparr>printed = m, saved = Some ?rows'\<rparr>"
    by blast
  have ld: "load_portfolio B (storage_after st \<lparr>printed = m, saved = Some ?rows'\<rparr>) = Inr ?rows'"
    using load_upserted[OF assms(1)] by (simp add: storage_after_def)
  have fr: "find_row rows symbol_in = find (matches ?sy) rows"
    by (simp add: find_row_def strip_upper)
  have "case find_row rows symbol_in of
              None \<Rightarrow> ?rows' = rows @ [\<lparr>symbol = ?sy, shares = sh, price = cost\<rparr>]
            | Some h \<Rightarrow>
                (\<exists>i<length rows. rows ! i = h \<and> upper (symbol h) = ?sy \<and>
                   length ?rows' = length rows \<and> ?rows' ! i = merged h sh cost \<and>
                   symbol (?rows' ! i) = symbol h \<and>
                   (\<forall>j<length rows. j \<noteq> i \<longrightarrow> ?rows' ! j = rows ! j) \<and>
                   (\<forall>j<length rows. upper (symbol (rows ! j)) \<noteq> ?sy \<longrightarrow> ?rows' ! j = rows ! j))"
  proof (cases "find (matches ?sy) rows")
    case None
    then show ?thesis by (simp add: fr upserted_def)
  next
    case (Some h)
    from replace_first_some[OF Some, of "merged h sh cost"] obtain i where
      i: "i < length rows" "rows ! i = h" "matches ?sy h"
         "replace_first (matches ?sy) (merged h sh cost) rows = rows[i := merged h sh cost]"
      by blast
    have eq: "?rows' = rows[i := merged h sh cost]"
      using Some i(4) by (simp add: upserted_def)
    have "rows ! i = h \<and> upper (symbol h) = ?sy \<and>
                   length ?rows' = length rows \<and> ?rows' ! i = merged h sh cost \<and>
                   symbol (?rows' ! i) = symbol h \<and>
                   (\<forall>j<length rows. j \<noteq> i \<longrightarrow> ?rows' ! j = rows ! j) \<and>
                   (\<forall>j<length rows. upper (symbol (rows ! j)) \<noteq> ?sy \<longrightarrow> ?rows' ! j = rows ! j)"
      unfolding eq using i(1,2,3) by (auto simp: matches_def symbol_merged nth_list_update)
    with i(1) show ?thesis unfolding fr Some by auto
  qed
  with res ld show ?thesis by (intro exI[of _ "\<lparr>printed = m, saved = Some ?rows'\<rparr>"] exI[of _ ?rows']) simp
qed


text \<open>
  Two holdings stored, MSFT then AAPL; adding to AAPL leaves MSFT as it was, in first place.
\<close>

theorem add_frame_witness:
  "\<exists>res rows'.
     add_stock demo_builtins
       (Parsed (JArr [JObj [(''symbol'', JStr ''MSFT''), (''shares'', JNum 10), (''price'', JNum 5)],
                      JObj [(''symbol'', JStr ''AAPL''), (''shares'', JNum 2), (''price'', JNum 100)]]))
       ''aapl'' ''2'' ''150'' = Inr res \<and>
     saved res = Some rows' \<and> length rows' = 2 \<and>
     rows' ! 0 = \<lparr>symbol = ''MSFT'', shares = 10, price = 5\<rparr> \<and>
     rows' ! 1 = \<lparr>symbol = ''AAPL'', shares = 4, price = 125\<rparr>"
proof -
  let ?st = "Parsed (JArr [JObj [(''symbol'', JStr ''MSFT''), (''shares'', JNum 10), (''price'', JNum 5)],
                      JObj [(''symbol'', JStr ''AAPL''), (''shares'', JNum 2), (''price'', JNum 100)]])"
  let ?rows = "[\<lparr>symbol = ''MSFT'', shares = 10, price = 5\<rparr>, \<lparr>symbol = ''AAPL'', shares = 2, price = 100\<rparr>]"
  have h2: "upper (strip ''aapl'') \<noteq> []" by (simp add: demo_symbol_lower)
  have p1: "(0::real) < 2" and p2: "(0::real) \<le> 150" by simp_all
  have fr: "find_row ?rows ''aapl'' = Some \<lparr>symbol = ''AAPL'', shares = 2, price = 100\<rparr>"
    by code_simp
  have up: "upper ''MSFT'' \<noteq> ''AAPL''" by code_simp
  have mg: "merged \<lparr>symbol = ''AAPL'', shares = 2, price = 100\<rparr> 2 150 = \<lparr>symbol = ''AAPL'', shares = 4, price = 125\<rparr>"
    by (simp add: merged_def)
  note fact = add_frame[OF demo_load_two h2 demo_float(1) p1 demo_float(3) p2, unfolded fr option.case]
  from fact obtain res rows' i where r: "add_stock demo_builtins ?st ''aapl'' ''2'' ''150'' = Inr res"
    "saved res = Some rows'" "i < length ?rows" "?rows ! i = \<lparr>symbol = ''AAPL'', shares = 2, price = 100\<rparr>"
    "length rows' = length ?rows"
    "rows' ! i = merged \<lparr>symbol = ''AAPL'', shares = 2, price = 100\<rparr> 2 150"
    "\<forall>j<length ?rows. upper (symbol (?rows ! j)) \<noteq> upper (strip ''aapl'') \<longrightarrow> rows' ! j = ?rows ! j"
    by blast
  from r(3,4) have i1: "i = 1" by (cases i) auto
  have "upper (symbol (?rows ! 0)) \<noteq> upper (strip ''aapl'')"
    using up by (simp add: demo_symbol_lower)
  with r(7) have "rows' ! 0 = ?rows ! 0" by simp
  then have r0: "rows' ! 0 = \<lparr>symbol = ''MSFT'', shares = 10, price = 5\<rparr>" by simp
  have r1: "rows' ! 1 = \<lparr>symbol = ''AAPL'', shares = 4, price = 125\<rparr>"
    using r(6) i1 mg by simp
  have len: "length rows' = 2" using r(5) by simp
  from r(1,2) len r0 r1 show ?thesis by blast
qed

subsection \<open>The order of two additions\<close>

text \<open>
  C2. Let the data file load to \<open>rows\<close>, with no holding for the symbol. Two valid
  additions of that symbol leave, in the one order, the loaded rows followed by the holding
  with shares \<open>shares1 + shares2\<close> and cost basis
  \<open>(shares1 * cost1 + shares2 * cost2) / (shares1 + shares2)\<close>, and in the other order the
  same with the operands of each addition exchanged: the two lists of holdings are equal,
  so the final holding has the same shares and the same cost basis in both orders.
\<close>

theorem add_order_independent:
  assumes "load_portfolio B st = Inr rows"
    and "find_row rows symbol1 = None"
    and "upper (strip symbol1) \<noteq> []"
    and "upper (strip symbol2) = upper (strip symbol1)"
    and "float_of_str B (strip shares1_in) = Some shares1" and "0 < shares1"
    and "float_of_str B (strip cost1_in) = Some cost1" and "0 \<le> cost1"
    and "float_of_str B (strip shares2_in) = Some shares2" and "0 < shares2"
    and "float_of_str B (strip cost2_in) = Some cost2" and "0 \<le> cost2"
  shows "holdings_after B st [(symbol1, shares1_in, cost1_in), (symbol2, shares2_in, cost2_in)] =
           Inr (rows @ [\<lparr>symbol = upper (strip symbol1), shares = shares1 + shares2,
                          price = (shares1 * cost1 + shares2 * cost2) / (shares1 + shares2)\<rparr>]) \<and>
         holdings_after B st [(symbol2, shares2_in, cost2_in), (symbol1, shares1_in, cost1_in)] =
           Inr (rows @ [\<lparr>symbol = upper (strip symbol1), shares = shares2 + shares1,
                          price = (shares2 * cost2 + shares1 * cost1) / (shares2 + shares1)\<rparr>]) \<and>
         holdings_after B st [(symbol1, shares1_in, cost1_in), (symbol2, shares2_in, cost2_in)] =
         holdings_after B st [(symbol2, shares2_in, cost2_in), (symbol1, shares1_in, cost1_in)]"
proof -
  let ?sy = "upper (strip symbol1)"
  have ne2: "upper (strip symbol2) \<noteq> []" using assms(3,4) by simp
  have none: "find (matches ?sy) rows = None"
    using assms(2) by (simp add: find_row_def strip_upper)
  have up: "upper ?sy = ?sy" by (rule upper_idem)
  have p12: "0 < shares1 + shares2" and p21: "0 < shares2 + shares1"
    using assms(6,10) by simp_all
  have a: "holdings_after B st [(symbol1, shares1_in, cost1_in), (symbol2, shares2_in, cost2_in)] =
           Inr (rows @ [\<lparr>symbol = ?sy, shares = shares1 + shares2,
                          price = (shares1 * cost1 + shares2 * cost2) / (shares1 + shares2)\<rparr>])"
    unfolding holdings_after_two_valid[OF assms(1) assms(3-12)]
      upserted_twice_new[OF none up p12] ..
  have "holdings_after B st [(symbol2, shares2_in, cost2_in), (symbol1, shares1_in, cost1_in)] =
           Inr (upserted (upserted rows (upper (strip symbol2)) shares2 cost2)
                  (upper (strip symbol2)) shares1 cost1)"
    by (rule holdings_after_two_valid[OF assms(1) ne2 assms(4)[symmetric] assms(9-12) assms(5-8)])
  then have b: "holdings_after B st [(symbol2, shares2_in, cost2_in), (symbol1, shares1_in, cost1_in)] =
           Inr (rows @ [\<lparr>symbol = ?sy, shares = shares2 + shares1,
                          price = (shares2 * cost2 + shares1 * cost1) / (shares2 + shares1)\<rparr>])"
    unfolding assms(4) upserted_twice_new[OF none up p21] .
  have c: "holdings_after B st [(symbol1, shares1_in, cost1_in), (symbol2, shares2_in, cost2_in)] =
           holdings_after B st [(symbol2, shares2_in, cost2_in), (symbol1, shares1_in, cost1_in)]"
    unfolding a b by (simp add: add.commute)
  from a b c show ?thesis by (intro conjI)
qed

theorem add_order_independent_witness:
  "holdings_after demo_builtins NoFile [(''aapl'', ''2'', ''100''), ('' AAPL '', ''1'', ''10'')] =
     Inr [\<lparr>symbol = ''AAPL'', shares = 3, price = 70\<rparr>] \<and>
   holdings_after demo_builtins NoFile [('' AAPL '', ''1'', ''10''), (''aapl'', ''2'', ''100'')] =
     Inr [\<lparr>symbol = ''AAPL'', shares = 3, price = 70\<rparr>]"
proof -
  have h1: "load_portfolio demo_builtins NoFile = Inr []" by (simp add: load_portfolio_def)
  have h2: "find_row [] ''aapl'' = None" by (simp add: find_row_def)
  have h3: "upper (strip ''aapl'') \<noteq> []" by (simp add: demo_symbol_lower)
  have h4: "upper (strip '' AAPL '') = upper (strip ''aapl'')"
    by (simp add: demo_symbol_lower demo_symbol_spaced)
  have p1: "(0::real) < 2" and p2: "(0::real) \<le> 100" and p3: "(0::real) < 1" and p4: "(0::real) \<le> 10"
    by simp_all
  note fact = add_order_independent[OF h1 h2 h3 h4 demo_float(1) p1 demo_float(2) p2
          demo_float_more(1) p3 demo_float_more(4) p4]
  from fact[THEN conjunct1] fact[THEN conjunct2, THEN conjunct1] show ?thesis
    by (simp add: demo_symbol_lower)
qed

text \<open>
  The claim does not extend to a symbol that already has a holding. A file may hold AAPL
  with \<open>-1\<close> shares at cost 10 (\<^verbatim>\<open>load_portfolio\<close> accepts it). The first addition of
  1 share brings the total to 0, where the guard \<^verbatim>\<open>new_total_shares > 0\<close> keeps the old
  cost basis; the second addition then averages over 0 old shares and takes the cost of the
  second lot. Adding at 5 then at 7 ends at cost basis 7; adding at 7 then at 5 ends at 5.
  (With a stored holding of positive shares the cost basis after the first addition is a
  rounded quotient that enters the second average, so the two orders need not agree in the
  last digit either; the statement above has no such intermediate value.)
\<close>

theorem add_order_counterexample:
  "holdings_after demo_builtins
     (Parsed (JArr [JObj [(''symbol'', JStr ''AAPL''), (''shares'', JNum (-1)), (''price'', JNum 10)]]))
     [(''AAPL'', ''1'', ''5''), (''AAPL'', ''1'', ''7'')] =
     Inr [\<lparr>symbol = ''AAPL'', shares = 1, price = 7\<rparr>] \<and>
   holdings_after demo_builtins
     (Parsed (JArr [JObj [(''symbol'', JStr ''AAPL''), (''shares'', JNum (-1)), (''price'', JNum 10)]]))
     [(''AAPL'', ''1'', ''7''), (''AAPL'', ''1'', ''5'')] =
     Inr [\<lparr>symbol = ''AAPL'', shares = 1, price = 5\<rparr>]"
  by code_simp


subsection \<open>One holding for each symbol\<close>

lemma store_inv_symbols:
  "store_inv rows = (list_all normalized (map symbol rows) \<and> distinct (map symbol rows))"
proof (cases "list_all (\<lambda>r. normalized (symbol r)) rows")
  case True
  then have "map (\<lambda>r. upper (strip (symbol r))) rows = map symbol rows"
    by (induction rows) (simp_all add: normalized_def)
  then show ?thesis
    unfolding store_inv_def one_per_symbol_def by (simp only: list.pred_map comp_def)
next
  case False
  then show ?thesis by (auto simp: store_inv_def list_all_iff)
qed

lemma map_symbol_replace_first:
  "find P rows = Some h \<Longrightarrow> symbol r' = symbol h \<Longrightarrow>
   map symbol (replace_first P r' rows) = map symbol rows"
  by (induction rows) (auto split: if_splits)

lemma find_none_symbols:
  assumes "find (matches sy) rows = None" and "list_all normalized (map symbol rows)"
  shows "sy \<notin> set (map symbol rows)"
proof
  assume "sy \<in> set (map symbol rows)"
  then obtain r where r: "r \<in> set rows" "symbol r = sy" by auto
  with assms(2) have "normalized (symbol r)" by (auto simp: list_all_iff)
  then have "matches sy r" using r(2) by (simp add: matches_def normalized_upper)
  with assms(1) r(1) show False by (auto simp: find_None_iff)
qed

lemma store_inv_upserted:
  assumes "store_inv rows" and "normalized sy"
  shows "store_inv (upserted rows sy sh cost)"
proof (cases "find (matches sy) rows")
  case None
  from assms(1) have n: "list_all normalized (map symbol rows)" and d: "distinct (map symbol rows)"
    by (simp_all add: store_inv_symbols)
  from find_none_symbols[OF None n] n d assms(2) show ?thesis
    by (simp add: store_inv_symbols upserted_def None)
next
  case (Some h)
  have "map symbol (upserted rows sy sh cost) = map symbol rows"
    by (simp add: upserted_def Some map_symbol_replace_first[OF Some] symbol_merged)
  with assms(1) show ?thesis by (simp add: store_inv_symbols)
qed

lemma holdings_after_inv:
  "load_portfolio B st = Inr rows \<Longrightarrow> store_inv rows \<Longrightarrow>
   \<exists>rows'. holdings_after B st inputs = Inr rows' \<and> store_inv rows'"
proof (induction inputs arbitrary: st rows)
  case Nil
  then show ?case by (simp add: holdings_after_Nil)
next
  case (Cons inp inputs)
  obtain a b c where inp: "inp = (a, b, c)" by (cases inp)
  show ?case
  proof (cases "valid_input B a b c")
    case True
    then obtain sh cost where v: "upper (strip a) \<noteq> []"
      "float_of_str B (strip b) = Some sh" "0 < sh"
      "float_of_str B (strip c) = Some cost" "0 \<le> cost"
      by (auto simp: valid_input_def split: option.splits)
    let ?rows1 = "upserted rows (upper (strip a)) sh cost"
    have l1: "load_portfolio B (save_portfolio ?rows1) = Inr ?rows1"
      by (rule load_upserted[OF Cons.prems(1)])
    have i1: "store_inv ?rows1"
      by (rule store_inv_upserted[OF Cons.prems(2) normalized_input])
    from Cons.IH[OF l1 i1] show ?thesis
      unfolding inp holdings_after_valid[OF Cons.prems(1) v] .
  next
    case False
    from Cons.IH[OF Cons.prems] show ?thesis
      unfolding inp holdings_after_invalid[OF Cons.prems(1) False] .
  qed
qed

lemma find_row_inv:
  assumes "store_inv rows"
  shows "(find_row rows q = Some r) = (r \<in> set rows \<and> symbol r = upper (strip q))"
proof -
  let ?s = "upper (strip q)"
  from assms have n: "list_all normalized (map symbol rows)" and d: "distinct (map symbol rows)"
    by (simp_all add: store_inv_symbols)
  have m: "matches ?s x = (symbol x = ?s)" if "x \<in> set rows" for x
  proof -
    from n that have "normalized (symbol x)" by (auto simp: list_all_iff)
    then show ?thesis by (simp add: matches_def normalized_upper)
  qed
  have fr: "find_row rows q = find (matches ?s) rows"
    by (simp add: find_row_def strip_upper)
  show ?thesis
  proof
    assume "find_row rows q = Some r"
    then have f: "find (matches ?s) rows = Some r" by (simp add: fr)
    then have "r \<in> set rows" and "matches ?s r"
      by (auto simp: find_Some_iff)
    then show "r \<in> set rows \<and> symbol r = ?s" by (simp add: m)
  next
    assume a: "r \<in> set rows \<and> symbol r = ?s"
    then obtain i where i: "i < length rows" "rows ! i = r" by (auto simp: in_set_conv_nth)
    have "\<not> matches ?s (rows ! j)" if "j < i" for j
    proof
      assume "matches ?s (rows ! j)"
      with that i(1) have "symbol (rows ! j) = ?s" by (simp add: m)
      with a i have e: "map symbol rows ! j = map symbol rows ! i" using that by simp
      have lj: "j < length (map symbol rows)" and li: "i < length (map symbol rows)"
        using that i(1) by simp_all
      from e nth_eq_iff_index_eq[OF d lj li] have "j = i" by blast
      with that show False by simp
    qed
    moreover have "matches ?s (rows ! i)" using a i by (simp add: m)
    ultimately have "find (matches ?s) rows = Some r"
      unfolding find_Some_iff using i by blast
    then show "find_row rows q = Some r" by (simp add: fr)
  qed
qed

text \<open>
  C9. Call a list of holdings well kept when every stored symbol is uppercased and trimmed
  and no two holdings have the same symbol; the empty list of a missing file is well kept.
  If the data file loads to a well-kept list, then any sequence of additions (accepted or
  rejected) succeeds and leaves a well-kept list, and on it \<^verbatim>\<open>find_row\<close> returns a
  holding exactly when that holding is in the list and its symbol is the uppercased, trimmed
  query: the match ignores the case and the surrounding blanks of the query and finds the
  one holding of that symbol.
\<close>

theorem adds_keep_one_per_symbol:
  assumes "load_portfolio B st = Inr rows" and "store_inv rows"
  shows "\<exists>rows'. holdings_after B st inputs = Inr rows' \<and> store_inv rows' \<and>
           (\<forall>q r. (find_row rows' q = Some r) = (r \<in> set rows' \<and> symbol r = upper (strip q)))"
proof -
  from holdings_after_inv[OF assms] obtain rows' where
    r: "holdings_after B st inputs = Inr rows'" "store_inv rows'" by blast
  from find_row_inv[OF r(2)] r show ?thesis by blast
qed

theorem adds_keep_one_per_symbol_witness:
  "\<exists>rows'. holdings_after demo_builtins NoFile
              [(''aapl'', ''2'', ''100''), (''msft'', ''1'', ''5''), ('' AAPL '', ''2'', ''150'')] = Inr rows' \<and>
            store_inv rows'"
proof -
  have h1: "load_portfolio demo_builtins NoFile = Inr []" by (simp add: load_portfolio_def)
  have h2: "store_inv []" by (simp add: store_inv_def one_per_symbol_def)
  from adds_keep_one_per_symbol[OF h1 h2] show ?thesis by blast
qed

text \<open>
  \<^verbatim>\<open>load_portfolio\<close> alone does not establish this: it uppercases the stored symbols
  but neither trims them nor merges entries. A file with the entries AAPL and aapl loads to
  two holdings of AAPL; a stored symbol with a leading blank keeps the blank, and
  \<^verbatim>\<open>find_row\<close>, which trims the query only, does not find it.
\<close>

theorem one_per_symbol_counterexample:
  "load_portfolio demo_builtins
     (Parsed (JArr [JObj [(''symbol'', JStr ''AAPL''), (''shares'', JNum 2), (''price'', JNum 100)],
                    JObj [(''symbol'', JStr ''aapl''), (''shares'', JNum 1), (''price'', JNum 5)]])) =
     Inr [\<lparr>symbol = ''AAPL'', shares = 2, price = 100\<rparr>, \<lparr>symbol = ''AAPL'', shares = 1, price = 5\<rparr>] \<and>
   \<not> one_per_symbol [\<lparr>symbol = ''AAPL'', shares = 2, price = 100\<rparr>, \<lparr>symbol = ''AAPL'', shares = 1, price = 5\<rparr>] \<and>
   load_portfolio demo_builtins
     (Parsed (JArr [JObj [(''symbol'', JStr '' AAPL''), (''shares'', JNum 2), (''price'', JNum 100)]])) =
     Inr [\<lparr>symbol = '' AAPL'', shares = 2, price = 100\<rparr>] \<and>
   find_row [\<lparr>symbol = '' AAPL'', shares = 2, price = 100\<rparr>] '' aapl '' = None"
  by code_simp


subsection \<open>What loading returns\<close>










subsection \<open>The pass over the rows of the portfolio\<close>

lemma row_line_line_of: "row_line f r = line_of r (f (upper (symbol r)))"
  by (simp add: row_line_def line_of_def)

lemma or_0_Some: "or_0 (Some p) = p"
  by (simp add: or_0_def)

lemma view_row_miss:
  assumes "price_cache s (upper (symbol r)) = None"
    and "g (upper (symbol r)) (world s) = (p, w')"
  shows "view_row g r s =
     \<lparr>price_cache = (price_cache s)(upper (symbol r) \<mapsto> p), world = w',
      grand_value = grand_value s + l_value (line_of r p),
      grand_cost = grand_cost s + price r * shares r,
      out = out s @ [line_of r p]\<rparr>"
  using assms by (simp add: view_row_def line_of_def Let_def)

lemma view_row_hit:
  assumes "price_cache s (upper (symbol r)) = Some p"
  shows "view_row g r s =
     \<lparr>price_cache = price_cache s, world = world s,
      grand_value = grand_value s + l_value (line_of r p),
      grand_cost = grand_cost s + price r * shares r,
      out = out s @ [line_of r p]\<rparr>"
  using assms by (simp add: view_row_def line_of_def Let_def)

lemma view_row_facts:
  "\<exists>p. price_cache (view_row g r s) (upper (symbol r)) = Some p \<and>
       out (view_row g r s) = out s @ [line_of r p] \<and>
       grand_value (view_row g r s) = grand_value s + l_value (line_of r p) \<and>
       grand_cost (view_row g r s) = grand_cost s + price r * shares r \<and>
       (\<forall>sy q. price_cache s sy = Some q \<longrightarrow> price_cache (view_row g r s) sy = Some q) \<and>
       dom (price_cache (view_row g r s)) = insert (upper (symbol r)) (dom (price_cache s))"
proof (cases "price_cache s (upper (symbol r))")
  case None
  obtain p w' where gp: "g (upper (symbol r)) (world s) = (p, w')"
    by (cases "g (upper (symbol r)) (world s)")
  show ?thesis
    unfolding view_row_miss[of s r g p w', OF None gp] using None by auto
next
  case (Some p)
  show ?thesis
    unfolding view_row_hit[of s r p g, OF Some] using Some by auto
qed

lemma view_rows_facts:
  "(\<forall>sy q. price_cache s sy = Some q \<longrightarrow> price_cache (view_rows g rows s) sy = Some q) \<and>
   out (view_rows g rows s) = out s @ map (\<lambda>r. line_of r (cached (view_rows g rows s) r)) rows \<and>
   grand_value (view_rows g rows s) =
     grand_value s + sum_list (map (\<lambda>r. l_value (line_of r (cached (view_rows g rows s) r))) rows) \<and>
   grand_cost (view_rows g rows s) = grand_cost s + sum_list (map (\<lambda>r. price r * shares r) rows) \<and>
   dom (price_cache (view_rows g rows s)) = dom (price_cache s) \<union> (\<lambda>r. upper (symbol r)) ` set rows"
proof (induction rows arbitrary: s)
  case Nil
  show ?case by simp
next
  case (Cons r rows)
  let ?s1 = "view_row g r s"
  let ?s' = "view_rows g rows ?s1"
  from view_row_facts[of g r s] obtain p where
    p: "price_cache ?s1 (upper (symbol r)) = Some p"
       "out ?s1 = out s @ [line_of r p]"
       "grand_value ?s1 = grand_value s + l_value (line_of r p)"
       "grand_cost ?s1 = grand_cost s + price r * shares r"
       "\<forall>sy q. price_cache s sy = Some q \<longrightarrow> price_cache ?s1 sy = Some q"
       "dom (price_cache ?s1) = insert (upper (symbol r)) (dom (price_cache s))"
    by blast
  note ih = Cons.IH[of ?s1]
  from ih p(1) have "price_cache ?s' (upper (symbol r)) = Some p" by blast
  then have c: "cached ?s' r = p" by (simp add: cached_def)
  have 1: "\<forall>sy q. price_cache s sy = Some q \<longrightarrow> price_cache ?s' sy = Some q"
    using ih p(5) by blast
  have 2: "out ?s' = out s @ map (\<lambda>r. line_of r (cached ?s' r)) (r # rows)"
    using ih p(2) c by simp
  have 3: "grand_value ?s' =
     grand_value s + sum_list (map (\<lambda>r. l_value (line_of r (cached ?s' r))) (r # rows))"
    using ih p(3) c by simp
  have 4: "grand_cost ?s' = grand_cost s + sum_list (map (\<lambda>r. price r * shares r) (r # rows))"
    using ih p(4) by simp
  have 5: "dom (price_cache ?s') = dom (price_cache s) \<union> (\<lambda>r. upper (symbol r)) ` set (r # rows)"
    using ih p(6) by auto
  from 1 2 3 4 5 show ?case by simp
qed

lemmas view_rows_out = view_rows_facts[THEN conjunct2, THEN conjunct1]
lemmas view_rows_value = view_rows_facts[THEN conjunct2, THEN conjunct2, THEN conjunct1]
lemmas view_rows_cost = view_rows_facts[THEN conjunct2, THEN conjunct2, THEN conjunct2, THEN conjunct1]
lemmas view_rows_dom = view_rows_facts[THEN conjunct2, THEN conjunct2, THEN conjunct2, THEN conjunct2]

lemma start_simps:
  "price_cache (start w) = Map.empty" "world (start w) = w" "grand_value (start w) = 0"
  "grand_cost (start w) = 0" "out (start w) = []"
  by (simp_all add: start_def)

lemma valuate_eq:
  "valuate g rows w =
     Inr (\<lparr>table = out (view_rows g rows (start w)),
           total_value = grand_value (view_rows g rows (start w)),
           total_cost = grand_cost (view_rows g rows (start w)),
           total_pl = grand_value (view_rows g rows (start w)) - grand_cost (view_rows g rows (start w)),
           change_pct =
             (if grand_value (view_rows g rows (start w)) \<noteq> 0 \<and> grand_cost (view_rows g rows (start w)) \<noteq> 0
              then Some ((grand_value (view_rows g rows (start w)) - grand_cost (view_rows g rows (start w)))
                          / grand_cost (view_rows g rows (start w)) * 100)
              else None)\<rparr>,
          world (view_rows g rows (start w)))"
  by (simp add: valuate_def start_def py_div_def Let_def)

subsection \<open>A quote source that is a function of the symbol\<close>

lemma view_row_pure:
  assumes "\<forall>sy. price_cache s sy = None \<or> price_cache s sy = Some (f sy)"
  shows "(\<forall>sy. price_cache (view_row (pure_lookup f) r s) sy = None \<or>
               price_cache (view_row (pure_lookup f) r s) sy = Some (f sy)) \<and>
         world (view_row (pure_lookup f) r s) = world s"
proof (cases "price_cache s (upper (symbol r))")
  case None
  have gp: "pure_lookup f (upper (symbol r)) (world s) = (f (upper (symbol r)), world s)"
    by (simp add: pure_lookup_def)
  show ?thesis
    unfolding view_row_miss[of s r "pure_lookup f" "f (upper (symbol r))" "world s", OF None gp]
    using assms by simp
next
  case (Some p)
  show ?thesis
    unfolding view_row_hit[of s r p "pure_lookup f", OF Some] using assms by simp
qed

lemma view_rows_pure:
  "\<forall>sy. price_cache s sy = None \<or> price_cache s sy = Some (f sy) \<Longrightarrow>
   (\<forall>sy. price_cache (view_rows (pure_lookup f) rows s) sy = None \<or>
         price_cache (view_rows (pure_lookup f) rows s) sy = Some (f sy)) \<and>
   world (view_rows (pure_lookup f) rows s) = world s"
proof (induction rows arbitrary: s)
  case Nil
  then show ?case by simp
next
  case (Cons r rows)
  from view_row_pure[OF Cons.prems, of r] have
    a: "\<forall>sy. price_cache (view_row (pure_lookup f) r s) sy = None \<or>
             price_cache (view_row (pure_lookup f) r s) sy = Some (f sy)"
    and b: "world (view_row (pure_lookup f) r s) = world s" by blast+
  from Cons.IH[OF a] b show ?case by simp
qed

lemma cached_pure:
  assumes "r \<in> set rows"
  shows "cached (view_rows (pure_lookup f) rows (start w)) r = f (upper (symbol r))"
proof -
  let ?s' = "view_rows (pure_lookup f) rows (start w)"
  have "\<forall>sy. price_cache (start w) sy = None \<or> price_cache (start w) sy = Some (f sy)"
    by (simp add: start_simps)
  from view_rows_pure[OF this, of rows] have
    c: "price_cache ?s' (upper (symbol r)) = None \<or>
        price_cache ?s' (upper (symbol r)) = Some (f (upper (symbol r)))" by blast
  have "dom (price_cache ?s') = dom (price_cache (start w)) \<union> (\<lambda>r. upper (symbol r)) ` set rows"
    by (rule view_rows_dom)
  with assms have "upper (symbol r) \<in> dom (price_cache ?s')" by blast
  then have "price_cache ?s' (upper (symbol r)) \<noteq> None" by blast
  with c show ?thesis by (simp add: cached_def)
qed

lemma valuate_pure:
  "valuate (pure_lookup f) rows w =
     Inr (\<lparr>table = map (row_line f) rows,
           total_value = sum_list (map (\<lambda>r. or_0 (f (upper (symbol r))) * shares r) rows),
           total_cost = sum_list (map (\<lambda>r. price r * shares r) rows),
           total_pl = sum_list (map (\<lambda>r. or_0 (f (upper (symbol r))) * shares r) rows)
                      - sum_list (map (\<lambda>r. price r * shares r) rows),
           change_pct =
             (if sum_list (map (\<lambda>r. or_0 (f (upper (symbol r))) * shares r) rows) \<noteq> 0 \<and>
                 sum_list (map (\<lambda>r. price r * shares r) rows) \<noteq> 0
              then Some ((sum_list (map (\<lambda>r. or_0 (f (upper (symbol r))) * shares r) rows)
                          - sum_list (map (\<lambda>r. price r * shares r) rows))
                          / sum_list (map (\<lambda>r. price r * shares r) rows) * 100)
              else None)\<rparr>, w)"
proof -
  let ?s' = "view_rows (pure_lookup f) rows (start w)"
  have m1: "map (\<lambda>r. line_of r (cached ?s' r)) rows = map (row_line f) rows"
    by (rule map_cong) (simp_all add: cached_pure row_line_line_of)
  have m2: "map (\<lambda>r. l_value (line_of r (cached ?s' r))) rows =
            map (\<lambda>r. or_0 (f (upper (symbol r))) * shares r) rows"
    by (rule map_cong) (simp_all add: cached_pure line_of_def)
  have "out ?s' = out (start w) @ map (\<lambda>r. line_of r (cached ?s' r)) rows"
    by (rule view_rows_out)
  then have o: "out ?s' = map (row_line f) rows"
    unfolding m1 by (simp only: start_simps append_Nil)
  have "grand_value ?s' =
      grand_value (start w) + sum_list (map (\<lambda>r. l_value (line_of r (cached ?s' r))) rows)"
    by (rule view_rows_value)
  then have v: "grand_value ?s' = sum_list (map (\<lambda>r. or_0 (f (upper (symbol r))) * shares r) rows)"
    unfolding m2 by (simp only: start_simps add_0)
  have "grand_cost ?s' = grand_cost (start w) + sum_list (map (\<lambda>r. price r * shares r) rows)"
    by (rule view_rows_cost)
  then have c: "grand_cost ?s' = sum_list (map (\<lambda>r. price r * shares r) rows)"
    by (simp only: start_simps add_0)
  have "\<forall>sy. price_cache (start w) sy = None \<or> price_cache (start w) sy = Some (f sy)"
    by (simp add: start_simps)
  from view_rows_pure[OF this, of rows] have wd: "world ?s' = w" by (simp add: start_simps)
  show ?thesis
    unfolding valuate_eq o v c wd ..
qed


subsection \<open>A quote source that records its calls\<close>

lemma view_row_logged:
  assumes "distinct (snd (world s))" and "set (snd (world s)) = dom (price_cache s)"
  shows "distinct (snd (world (view_row (logged g) r s))) \<and>
         set (snd (world (view_row (logged g) r s))) = dom (price_cache (view_row (logged g) r s))"
proof (cases "price_cache s (upper (symbol r))")
  case None
  obtain w calls where wc: "world s = (w, calls)" by (cases "world s")
  obtain p w' where gp: "g (upper (symbol r)) w = (p, w')" by (cases "g (upper (symbol r)) w")
  have lg: "logged g (upper (symbol r)) (world s) = (p, (w', calls @ [upper (symbol r)]))"
    by (simp add: logged_def wc gp)
  from None assms(2) wc have "upper (symbol r) \<notin> set calls" by auto
  with assms wc show ?thesis
    unfolding view_row_miss[of s r "logged g" p "(w', calls @ [upper (symbol r)])", OF None lg]
    by simp
next
  case (Some p)
  show ?thesis
    unfolding view_row_hit[of s r p "logged g", OF Some] using assms by simp
qed

lemma view_rows_logged:
  "distinct (snd (world s)) \<Longrightarrow> set (snd (world s)) = dom (price_cache s) \<Longrightarrow>
   distinct (snd (world (view_rows (logged g) rows s))) \<and>
   set (snd (world (view_rows (logged g) rows s))) = dom (price_cache (view_rows (logged g) rows s))"
proof (induction rows arbitrary: s)
  case Nil
  then show ?case by simp
next
  case (Cons r rows)
  from view_row_logged[OF Cons.prems, of g r] have
    a: "distinct (snd (world (view_row (logged g) r s)))"
    and b: "set (snd (world (view_row (logged g) r s))) = dom (price_cache (view_row (logged g) r s))"
    by blast+
  from Cons.IH[OF a b] show ?case by simp
qed

lemma calls_logged:
  "distinct (snd (world (view_rows (logged g) rows (start (w, []))))) \<and>
   set (snd (world (view_rows (logged g) rows (start (w, []))))) = (\<lambda>r. upper (symbol r)) ` set rows"
proof -
  let ?s0 = "start (w, [] :: string list)"
  have d: "distinct (snd (world ?s0))" and e: "set (snd (world ?s0)) = dom (price_cache ?s0)"
    by (simp_all add: start_simps)
  have "dom (price_cache (view_rows (logged g) rows ?s0)) =
        dom (price_cache ?s0) \<union> (\<lambda>r. upper (symbol r)) ` set rows"
    by (rule view_rows_dom)
  then have "dom (price_cache (view_rows (logged g) rows ?s0)) = (\<lambda>r. upper (symbol r)) ` set rows"
    by (simp add: start_simps)
  with view_rows_logged[OF d e, of g rows] show ?thesis by simp
qed

lemma table_nth:
  assumes "i < length rows"
  shows "out (view_rows g rows (start w)) ! i =
         line_of (rows ! i) (cached (view_rows g rows (start w)) (rows ! i))"
proof -
  have "out (view_rows g rows (start w)) =
        out (start w) @ map (\<lambda>r. line_of r (cached (view_rows g rows (start w)) r)) rows"
    by (rule view_rows_out)
  then have "out (view_rows g rows (start w)) =
        map (\<lambda>r. line_of r (cached (view_rows g rows (start w)) r)) rows"
    by (simp only: start_simps append_Nil)
  with assms show ?thesis by simp
qed

lemma table_length: "length (out (view_rows g rows (start w))) = length rows"
proof -
  have "out (view_rows g rows (start w)) =
        out (start w) @ map (\<lambda>r. line_of r (cached (view_rows g rows (start w)) r)) rows"
    by (rule view_rows_out)
  then show ?thesis by (simp add: start_simps)
qed

lemma cached_same_symbol:
  "upper (symbol r) = upper (symbol r') \<Longrightarrow> cached s r = cached s r'"
  by (simp add: cached_def)

subsection \<open>Errors of loading\<close>

lemma py_float_error: "py_float B v \<noteq> Inl ZeroDivisionError"
  by (cases v) (simp_all split: option.splits)

lemma normalize_row_error: "normalize_row B e \<noteq> Inl ZeroDivisionError"
  by (cases e) (auto simp: normalize_row_def float_or_0_def Let_def py_float_error split: sum.splits)

lemma normalize_rows_error: "normalize_rows B es \<noteq> Inl ZeroDivisionError"
  by (induction es) (auto simp: normalize_row_error split: sum.splits)

lemma load_error: "load_portfolio B st \<noteq> Inl ZeroDivisionError"
  by (auto simp: load_portfolio_def normalize_rows_error split: storage.splits json.splits)


subsection \<open>The report\<close>

lemma valuate_report:
  "\<exists>rep w'. valuate g rows w = Inr (rep, w') \<and>
      total_pl rep = total_value rep - total_cost rep \<and>
      change_pct rep =
        (if total_value rep \<noteq> 0 \<and> total_cost rep \<noteq> 0
         then Some (total_pl rep / total_cost rep * 100) else None)"
proof -
  define s' where "s' = view_rows g rows (start w)"
  have v: "valuate g rows w =
     Inr (\<lparr>table = out s', total_value = grand_value s', total_cost = grand_cost s',
           total_pl = grand_value s' - grand_cost s',
           change_pct = (if grand_value s' \<noteq> 0 \<and> grand_cost s' \<noteq> 0
                         then Some ((grand_value s' - grand_cost s') / grand_cost s' * 100)
                         else None)\<rparr>, world s')"
    unfolding s'_def by (rule valuate_eq)
  show ?thesis
    unfolding v by (intro exI conjI) (rule refl, simp_all)
qed

lemma view_portfolio_error: "view_portfolio B g st w \<noteq> Inl ZeroDivisionError"
proof (cases "load_portfolio B st")
  case (Inl e)
  with load_error[of B st] have "e \<noteq> ZeroDivisionError" by simp
  with Inl show ?thesis by (simp add: view_portfolio_def)
next
  case (Inr rows)
  from valuate_report[of g rows w] obtain rep w' where "valuate g rows w = Inr (rep, w')"
    by blast
  with Inr show ?thesis by (simp add: view_portfolio_def)
qed

lemma demo_price_msft: "demo_prices ''MSFT'' = Some 60"
  by code_simp

lemma demo_price_xyz: "demo_prices ''XYZ'' = None"
  by code_simp

lemma demo_price_aapl: "demo_prices ''AAPL'' = Some 200"
  by code_simp

lemma demo_upper: "upper ''MSFT'' = ''MSFT''" "upper ''XYZ'' = ''XYZ''" "upper ''AAPL'' = ''AAPL''"
  by code_simp+

subsection \<open>Rows and totals\<close>

text \<open>
  C4. For every list of holdings and every price lookup function \<open>f\<close>, the pass of
  \<^verbatim>\<open>view_portfolio\<close> over the rows succeeds and prints one row for each holding, in the
  order of the holdings, with value \<open>(f symbol or 0) * shares\<close> and profit or loss
  \<open>value - cost * shares\<close> (this is \<open>row_line\<close>); the total value is the sum of the row
  values, the total cost the sum of \<open>cost * shares\<close> over the rows, and the total profit or
  loss their difference. (\<^verbatim>\<open>view_portfolio\<close> runs this pass when the loaded list is not
  empty, and prints that the portfolio is empty otherwise.)
\<close>

theorem valuation_formulas:
  "\<exists>rep. valuate (pure_lookup f) rows w = Inr (rep, w) \<and>
     table rep = map (row_line f) rows \<and>
     total_value rep = sum_list (map l_value (table rep)) \<and>
     total_cost rep = sum_list (map (\<lambda>l. l_cost l * l_sh l) (table rep)) \<and>
     total_pl rep = total_value rep - total_cost rep"
  unfolding valuate_pure by (simp add: comp_def row_line_def)

text \<open>The example of the specification: MSFT 10 at 50, quoted at 60.\<close>

theorem valuation_formulas_witness:
  "\<exists>rep. valuate (pure_lookup demo_prices) [\<lparr>symbol = ''MSFT'', shares = 10, price = 50\<rparr>] () = Inr (rep, ()) \<and>
     table rep = [\<lparr>l_sym = ''MSFT'', l_sh = 10, l_cost = 50, l_live = Dollars 60,
                  l_value = 600, l_pl = 100\<rparr>] \<and>
     total_value rep = 600 \<and> total_cost rep = 500 \<and> total_pl rep = 100"
proof -
  from valuation_formulas[of demo_prices "[\<lparr>symbol = ''MSFT'', shares = 10, price = 50\<rparr>]" "()"]
  obtain rep where r:
    "valuate (pure_lookup demo_prices) [\<lparr>symbol = ''MSFT'', shares = 10, price = 50\<rparr>] () = Inr (rep, ())"
    "table rep = map (row_line demo_prices) [\<lparr>symbol = ''MSFT'', shares = 10, price = 50\<rparr>]"
    "total_value rep = sum_list (map l_value (table rep))"
    "total_cost rep = sum_list (map (\<lambda>l. l_cost l * l_sh l) (table rep))"
    "total_pl rep = total_value rep - total_cost rep"
    by blast
  have t: "table rep = [\<lparr>l_sym = ''MSFT'', l_sh = 10, l_cost = 50, l_live = Dollars 60,
                  l_value = 600, l_pl = 100\<rparr>]"
    unfolding r(2) by (simp add: row_line_def demo_price_msft demo_upper or_0_def live_display_def)
  have v: "total_value rep = 600" unfolding r(3) t by simp
  have c: "total_cost rep = 500" unfolding r(4) t by simp
  have "total_pl rep = 100" unfolding r(5) v c by simp
  with r(1) t v c show ?thesis by blast
qed

subsection \<open>One lookup for each symbol\<close>

text \<open>
  C5. Run the pass with any quote source, of any internal state, wrapped so that every call
  made to it is recorded. Whatever the list of holdings, the recorded calls are distinct and
  are exactly the uppercased symbols, as stored, that occur in the list: each such spelling is
  looked up once, however many rows carry it, and two rows with the same uppercased symbol
  show the same live price. The key of the cache is the uppercased symbol, not trimmed.
\<close>

theorem lookup_once_per_symbol:
  "\<exists>rep w' calls. valuate (logged g) rows (w, []) = Inr (rep, (w', calls)) \<and>
     distinct calls \<and> set calls = (\<lambda>r. upper (symbol r)) ` set rows \<and>
     length (table rep) = length rows \<and>
     (\<forall>i<length rows. \<forall>j<length rows.
        upper (symbol (rows ! i)) = upper (symbol (rows ! j)) \<longrightarrow>
        l_live (table rep ! i) = l_live (table rep ! j))"
proof -
  define s' where "s' = view_rows (logged g) rows (start (w, [] :: string list))"
  obtain w' calls where wc: "world s' = (w', calls)" by (cases "world s'")
  from calls_logged[of g rows w] wc have
    d: "distinct calls" and e: "set calls = (\<lambda>r. upper (symbol r)) ` set rows"
    unfolding s'_def by simp_all
  have len: "length (out s') = length rows"
    unfolding s'_def by (rule table_length)
  have same: "\<forall>i<length rows. \<forall>j<length rows.
        upper (symbol (rows ! i)) = upper (symbol (rows ! j)) \<longrightarrow>
        l_live (out s' ! i) = l_live (out s' ! j)"
  proof (intro allI impI)
    fix i j
    assume i: "i < length rows" and j: "j < length rows"
      and u: "upper (symbol (rows ! i)) = upper (symbol (rows ! j))"
    have "out s' ! i = line_of (rows ! i) (cached s' (rows ! i))"
      unfolding s'_def by (rule table_nth[OF i])
    moreover have "out s' ! j = line_of (rows ! j) (cached s' (rows ! j))"
      unfolding s'_def by (rule table_nth[OF j])
    moreover have "cached s' (rows ! i) = cached s' (rows ! j)"
      by (rule cached_same_symbol[OF u])
    ultimately show "l_live (out s' ! i) = l_live (out s' ! j)"
      by (simp add: line_of_def)
  qed
  define rep where "rep =
     \<lparr>table = out s', total_value = grand_value s', total_cost = grand_cost s',
      total_pl = grand_value s' - grand_cost s',
      change_pct = (if grand_value s' \<noteq> 0 \<and> grand_cost s' \<noteq> 0
                    then Some ((grand_value s' - grand_cost s') / grand_cost s' * 100)
                    else None)\<rparr>"
  have t: "table rep = out s'" by (simp add: rep_def)
  have v: "valuate (logged g) rows (w, []) = Inr (rep, (w', calls))"
    unfolding rep_def s'_def wc[unfolded s'_def, symmetric] by (rule valuate_eq)
  from v d e len[folded t] same[folded t] show ?thesis by blast
qed

theorem lookup_once_per_symbol_witness:
  "\<exists>rep w' calls.
     valuate (logged (pure_lookup demo_prices))
       [\<lparr>symbol = ''AAPL'', shares = 1, price = 5\<rparr>, \<lparr>symbol = ''MSFT'', shares = 10, price = 50\<rparr>,
        \<lparr>symbol = ''AAPL'', shares = 2, price = 7\<rparr>] ((), []) = Inr (rep, (w', calls)) \<and>
     distinct calls \<and> set calls = {''AAPL'', ''MSFT''} \<and>
     l_live (table rep ! 0) = l_live (table rep ! 2)"
proof -
  let ?rows = "[\<lparr>symbol = ''AAPL'', shares = 1, price = 5\<rparr>, \<lparr>symbol = ''MSFT'', shares = 10, price = 50\<rparr>,
        \<lparr>symbol = ''AAPL'', shares = 2, price = 7\<rparr>]"
  from lookup_once_per_symbol[of "pure_lookup demo_prices" ?rows "()"]
  obtain rep w' calls where r:
    "valuate (logged (pure_lookup demo_prices)) ?rows ((), []) = Inr (rep, (w', calls))"
    "distinct calls" "set calls = (\<lambda>r. upper (symbol r)) ` set ?rows"
    "\<forall>i<length ?rows. \<forall>j<length ?rows.
        upper (symbol (?rows ! i)) = upper (symbol (?rows ! j)) \<longrightarrow>
        l_live (table rep ! i) = l_live (table rep ! j)"
    by blast
  have "(\<lambda>r. upper (symbol r)) ` set ?rows = {''AAPL'', ''MSFT''}"
    by code_simp
  with r(3) have s: "set calls = {''AAPL'', ''MSFT''}" by (rule trans)
  have "(0::nat) < length ?rows" "(2::nat) < length ?rows"
    "upper (symbol (?rows ! 0)) = upper (symbol (?rows ! 2))" by simp_all
  from r(4)[rule_format, OF this] have l: "l_live (table rep ! 0) = l_live (table rep ! 2)" .
  from r(1,2) s l show ?thesis by blast
qed

text \<open>
  Two stored symbols that differ by a surrounding blank are two keys. A file with the
  symbols \<^verbatim>\<open>" AAPL"\<close> and \<^verbatim>\<open>"AAPL"\<close> loads to two holdings of the one uppercased,
  trimmed symbol AAPL; the pass calls \<^verbatim>\<open>get_live_price\<close> once with each spelling, and
  \<^verbatim>\<open>get_live_price\<close>, which trims its argument, asks the quote service for AAPL twice.
\<close>

theorem lookup_counterexample:
  "load_portfolio demo_builtins
     (Parsed (JArr [JObj [(''symbol'', JStr '' AAPL''), (''shares'', JNum 1), (''price'', JNum 100)],
                    JObj [(''symbol'', JStr ''AAPL''), (''shares'', JNum 1), (''price'', JNum 100)]])) =
     Inr [\<lparr>symbol = '' AAPL'', shares = 1, price = 100\<rparr>, \<lparr>symbol = ''AAPL'', shares = 1, price = 100\<rparr>] \<and>
   upper (strip '' AAPL'') = upper (strip ''AAPL'') \<and>
   valuate (logged (get_live_price (pure_lookup demo_prices)))
     [\<lparr>symbol = '' AAPL'', shares = 1, price = 100\<rparr>, \<lparr>symbol = ''AAPL'', shares = 1, price = 100\<rparr>]
     ((), []) =
     Inr (\<lparr>table = [\<lparr>l_sym = '' AAPL'', l_sh = 1, l_cost = 100, l_live = Dollars 200,
                        l_value = 200, l_pl = 100\<rparr>,
                      \<lparr>l_sym = ''AAPL'', l_sh = 1, l_cost = 100, l_live = Dollars 200,
                        l_value = 200, l_pl = 100\<rparr>],
           total_value = 400, total_cost = 200, total_pl = 200, change_pct = Some 100\<rparr>,
          ((), ['' AAPL'', ''AAPL''])) \<and>
   valuate (get_live_price (logged (pure_lookup demo_prices)))
     [\<lparr>symbol = '' AAPL'', shares = 1, price = 100\<rparr>, \<lparr>symbol = ''AAPL'', shares = 1, price = 100\<rparr>]
     ((), []) =
     Inr (\<lparr>table = [\<lparr>l_sym = '' AAPL'', l_sh = 1, l_cost = 100, l_live = Dollars 200,
                        l_value = 200, l_pl = 100\<rparr>,
                      \<lparr>l_sym = ''AAPL'', l_sh = 1, l_cost = 100, l_live = Dollars 200,
                        l_value = 200, l_pl = 100\<rparr>],
           total_value = 400, total_cost = 200, total_pl = 200, change_pct = Some 100\<rparr>,
          ((), [''AAPL'', ''AAPL'']))"
  by code_simp

subsection \<open>Unavailable prices\<close>

text \<open>
  C6. For every list of holdings and every price lookup function \<open>f\<close>, the pass succeeds
  and prints a row for each holding. A row whose symbol has no price is shown as n/a (not as
  a price of 0) with value 0, a row whose symbol has price \<open>p\<close> shows \<open>p\<close> and value
  \<open>p * shares\<close>, and the total value is the sum of \<open>p * shares\<close> over the rows with a
  price: rows without one contribute 0 and stop nothing.
\<close>

theorem unavailable_price:
  "\<exists>rep. valuate (pure_lookup f) rows w = Inr (rep, w) \<and>
     length (table rep) = length rows \<and>
     (\<forall>i<length rows.
        case f (upper (symbol (rows ! i))) of
          None \<Rightarrow> l_live (table rep ! i) = NA \<and> l_value (table rep ! i) = 0
        | Some p \<Rightarrow> l_live (table rep ! i) = Dollars p \<and> l_value (table rep ! i) = p * shares (rows ! i)) \<and>
     total_value rep =
       sum_list (map (\<lambda>r. case f (upper (symbol r)) of None \<Rightarrow> 0 | Some p \<Rightarrow> p * shares r) rows)"
proof -
  have "or_0 (f (upper (symbol r))) * shares r =
        (case f (upper (symbol r)) of None \<Rightarrow> 0 | Some p \<Rightarrow> p * shares r)" for r :: row
    by (simp add: or_0_def split: option.splits)
  then have "sum_list (map (\<lambda>r. or_0 (f (upper (symbol r))) * shares r) rows) =
    sum_list (map (\<lambda>r. case f (upper (symbol r)) of None \<Rightarrow> 0 | Some p \<Rightarrow> p * shares r) rows)"
    by simp
  then show ?thesis
    unfolding valuate_pure
    by (simp add: row_line_def or_0_def live_display_def split: option.splits)
qed

theorem unavailable_price_witness:
  "\<exists>rep. valuate (pure_lookup demo_prices)
             [\<lparr>symbol = ''XYZ'', shares = 3, price = 7\<rparr>, \<lparr>symbol = ''MSFT'', shares = 10, price = 50\<rparr>] () =
             Inr (rep, ()) \<and>
     l_live (table rep ! 0) = NA \<and> l_value (table rep ! 0) = 0 \<and>
     l_live (table rep ! 1) = Dollars 60 \<and> l_value (table rep ! 1) = 600 \<and>
     total_value rep = 600"
proof -
  let ?rows = "[\<lparr>symbol = ''XYZ'', shares = 3, price = 7\<rparr>, \<lparr>symbol = ''MSFT'', shares = 10, price = 50\<rparr>]"
  from unavailable_price[of demo_prices ?rows "()"]
  obtain rep where r:
    "valuate (pure_lookup demo_prices) ?rows () = Inr (rep, ())"
    "\<forall>i<length ?rows.
        case demo_prices (upper (symbol (?rows ! i))) of
          None \<Rightarrow> l_live (table rep ! i) = NA \<and> l_value (table rep ! i) = 0
        | Some p \<Rightarrow> l_live (table rep ! i) = Dollars p \<and> l_value (table rep ! i) = p * shares (?rows ! i)"
    "total_value rep =
       sum_list (map (\<lambda>r. case demo_prices (upper (symbol r)) of None \<Rightarrow> 0 | Some p \<Rightarrow> p * shares r) ?rows)"
    by blast
  from r(2)[rule_format, of 0] have "case demo_prices (upper (symbol (?rows ! 0))) of
          None \<Rightarrow> l_live (table rep ! 0) = NA \<and> l_value (table rep ! 0) = 0
        | Some p \<Rightarrow> l_live (table rep ! 0) = Dollars p \<and> l_value (table rep ! 0) = p * shares (?rows ! 0)"
    by simp
  then have a: "l_live (table rep ! 0) = NA \<and> l_value (table rep ! 0) = 0"
    by (simp add: demo_price_xyz demo_upper)
  from r(2)[rule_format, of 1] have "case demo_prices (upper (symbol (?rows ! 1))) of
          None \<Rightarrow> l_live (table rep ! 1) = NA \<and> l_value (table rep ! 1) = 0
        | Some p \<Rightarrow> l_live (table rep ! 1) = Dollars p \<and> l_value (table rep ! 1) = p * shares (?rows ! 1)"
    by simp
  then have b: "l_live (table rep ! 1) = Dollars 60 \<and> l_value (table rep ! 1) = 600"
    by (simp add: demo_price_msft demo_upper)
  have c: "total_value rep = 600"
    unfolding r(3) by (simp add: demo_price_xyz demo_price_msft demo_upper)
  from r(1) a b c show ?thesis by blast
qed

subsection \<open>The percentage line\<close>

text \<open>
  C7. For every quote source and every list of holdings the pass succeeds, and the
  percentage is \<open>total_pl / total_cost * 100\<close> exactly when the total value and the total
  cost are both different from 0; it is omitted when either is 0. The division is reached
  with a divisor different from 0 only, and \<^verbatim>\<open>view_portfolio\<close> never raises
  \<^verbatim>\<open>ZeroDivisionError\<close>, whatever the data file holds.
\<close>

theorem percentage_guard:
  "(\<exists>rep w'. valuate g rows w = Inr (rep, w') \<and>
      total_pl rep = total_value rep - total_cost rep \<and>
      change_pct rep =
        (if total_value rep \<noteq> 0 \<and> total_cost rep \<noteq> 0
         then Some (total_pl rep / total_cost rep * 100) else None)) \<and>
   view_portfolio B g st w \<noteq> Inl ZeroDivisionError"
  using valuate_report[of g rows w] view_portfolio_error[of B g st w] by (rule conjI)

theorem percentage_guard_witness:
  "\<exists>rep w'. valuate (pure_lookup demo_prices) [\<lparr>symbol = ''MSFT'', shares = 10, price = 50\<rparr>] () = Inr (rep, w') \<and>
      change_pct rep = Some 20"
proof -
  let ?rows = "[\<lparr>symbol = ''MSFT'', shares = 10, price = 50\<rparr>]"
  from percentage_guard[of "pure_lookup demo_prices" ?rows "()", THEN conjunct1]
  obtain rep w' where r: "valuate (pure_lookup demo_prices) ?rows () = Inr (rep, w')"
    "total_pl rep = total_value rep - total_cost rep"
    "change_pct rep =
        (if total_value rep \<noteq> 0 \<and> total_cost rep \<noteq> 0
         then Some (total_pl rep / total_cost rep * 100) else None)"
    by blast
  have "valuate (pure_lookup demo_prices) ?rows () =
      Inr (\<lparr>table = [\<lparr>l_sym = ''MSFT'', l_sh = 10, l_cost = 50, l_live = Dollars 60,
                         l_value = 600, l_pl = 100\<rparr>],
            total_value = 600, total_cost = 500, total_pl = 100, change_pct = Some 20\<rparr>, ())"
    unfolding valuate_pure
    by (simp add: row_line_def demo_price_msft demo_upper or_0_def live_display_def)
  with r(1) have v: "total_value rep = 600" and c: "total_cost rep = 500" by auto
  have "change_pct rep = Some 20" unfolding r(3) r(2) v c by simp
  with r(1) show ?thesis by blast
qed

end
